theory Spec2Isabelle
  imports Complex_Main
begin

section \<open>Values and exceptions of the Python program\<close>

text \<open>
  The module \<^verbatim>\<open>orangecontrib/text/nyt.py\<close> works on what \<^verbatim>\<open>json.loads\<close> returns: None,
  booleans, integers, strings, lists and dicts. A dict is kept as an association list in
  insertion order (the order \<^verbatim>\<open>.values()\<close> walks); a dict built by \<^verbatim>\<open>json.loads\<close> has each
  key once. A string is a list of characters, each a code point below 256 (Python's
  strings also hold the code points above); JSON floats are left out of the value type.
\<close>

datatype json =
    JNull
  | JBool bool
  | JInt int
  | JStr string
  | JList "json list"
  | JObj "(string \<times> json) list"

text \<open>The exceptions that can leave the functions modelled here.\<close>

datatype error =
    KeyError
  | TypeError
  | ValueError
  | AttributeError
  | IndexError
  | HTTPError
  | URLError
  | OverflowError
  | OtherError

text \<open>Truth value of a Python object, as \<^verbatim>\<open>if v:\<close> tests it.\<close>

fun truthy :: "json \<Rightarrow> bool" where
  "truthy JNull = False"
| "truthy (JBool b) = b"
| "truthy (JInt i) = (i \<noteq> 0)"
| "truthy (JStr s) = (s \<noteq> [])"
| "truthy (JList l) = (l \<noteq> [])"
| "truthy (JObj d) = (d \<noteq> [])"

text \<open>\<^verbatim>\<open>sep.join(parts)\<close> on a list of strings.\<close>

fun join :: "string \<Rightarrow> string list \<Rightarrow> string" where
  "join sep [] = []"
| "join sep [s] = s"
| "join sep (s # t # ts) = s @ sep @ join sep (t # ts)"

text \<open>\<^verbatim>\<open>str.join\<close> raises TypeError at the first item that is not a string.\<close>

fun str_items :: "json list \<Rightarrow> error + string list" where
  "str_items [] = Inr []"
| "str_items (v # vs) =
     (case v of
        JStr s \<Rightarrow> (case str_items vs of Inl e \<Rightarrow> Inl e | Inr ss \<Rightarrow> Inr (s # ss))
      | _ \<Rightarrow> Inl TypeError)"

definition py_join :: "string \<Rightarrow> json list \<Rightarrow> error + json" where
  "py_join sep vs = (case str_items vs of Inl e \<Rightarrow> Inl e | Inr ss \<Rightarrow> Inr (JStr (join sep ss)))"

text \<open>\<^verbatim>\<open>p in s\<close> for two strings: \<open>p\<close> occurs in \<open>s\<close> as a contiguous piece.\<close>

fun is_substring :: "string \<Rightarrow> string \<Rightarrow> bool" where
  "is_substring p [] = (p = [])"
| "is_substring p (c # cs) = (take (length p) (c # cs) = p \<or> is_substring p cs)"

text \<open>\<^verbatim>\<open>k in x\<close> with a string \<open>k\<close>: key of a dict, element of a list, piece of a string.\<close>

fun py_in :: "string \<Rightarrow> json \<Rightarrow> error + bool" where
  "py_in k (JObj d) = Inr (k \<in> set (map fst d))"
| "py_in k (JList l) = Inr (JStr k \<in> set l)"
| "py_in k (JStr s) = Inr (is_substring k s)"
| "py_in k _ = Inl TypeError"

text \<open>\<^verbatim>\<open>x[k]\<close> with a string \<open>k\<close>: only a dict can be indexed so.\<close>

fun py_getitem :: "json \<Rightarrow> string \<Rightarrow> error + json" where
  "py_getitem (JObj d) k = (case map_of d k of None \<Rightarrow> Inl KeyError | Some v \<Rightarrow> Inr v)"
| "py_getitem _ k = Inl TypeError"

text \<open>\<^verbatim>\<open>x.get(k, default)\<close>: a method of dicts only.\<close>

fun py_get :: "json \<Rightarrow> string \<Rightarrow> json \<Rightarrow> error + json" where
  "py_get (JObj d) k dflt = (case map_of d k of None \<Rightarrow> Inr dflt | Some v \<Rightarrow> Inr v)"
| "py_get _ k dflt = Inl AttributeError"

text \<open>What a \<^verbatim>\<open>for\<close> loop (or \<^verbatim>\<open>list.extend\<close>) walks over.\<close>

fun py_iter :: "json \<Rightarrow> error + json list" where
  "py_iter (JList l) = Inr l"
| "py_iter (JObj d) = Inr (map (\<lambda>kv. JStr (fst kv)) d)"
| "py_iter (JStr s) = Inr (map (\<lambda>c. JStr [c]) s)"
| "py_iter _ = Inl TypeError"

text \<open>\<^verbatim>\<open>xs[:k]\<close>: a negative \<open>k\<close> counts from the end.\<close>

definition py_slice_to :: "'a list \<Rightarrow> int \<Rightarrow> 'a list" where
  "py_slice_to xs k = (if k < 0 then take (nat (int (length xs) + k)) xs else take (nat k) xs)"

section \<open>Strings and dates\<close>

text \<open>\<^verbatim>\<open>str(n)\<close> and \<^verbatim>\<open>"{}".format(n)\<close> for a page number: its decimal digits.\<close>

definition digit_char :: "nat \<Rightarrow> char" where
  "digit_char d = char_of (48 + d)"

fun str_nat :: "nat \<Rightarrow> string" where
  "str_nat n = (if n < 10 then [digit_char n] else str_nat (n div 10) @ [digit_char (n mod 10)])"

text \<open>\<^verbatim>\<open>"%04d"\<close> and \<^verbatim>\<open>"%02d"\<close>: zeros on the left up to the width.\<close>

definition zero_pad :: "nat \<Rightarrow> string \<Rightarrow> string" where
  "zero_pad w s = replicate (w - length s) CHR ''0'' @ s"

text \<open>\<^verbatim>\<open>s.split(sep)\<close> with a one-character separator.\<close>

fun split_on :: "char \<Rightarrow> string \<Rightarrow> string list" where
  "split_on sep [] = [[]]"
| "split_on sep (c # cs) =
     (if c = sep then [] # split_on sep cs
      else (case split_on sep cs of [] \<Rightarrow> [[c]] | w # ws \<Rightarrow> (c # w) # ws))"

text \<open>
  \<^verbatim>\<open>s.strip()\<close>: white space off both ends. Below 256 the white space of Python is the
  space, U+0009 to U+000D, U+001C to U+001F, U+0085 and U+00A0.
\<close>

definition is_space :: "char \<Rightarrow> bool" where
  "is_space c = (c \<in> set [CHR '' '', CHR 0x09, CHR 0x0A, CHR 0x0B, CHR 0x0C, CHR 0x0D,
                           CHR 0x1C, CHR 0x1D, CHR 0x1E, CHR 0x1F, CHR 0x85, CHR 0xA0])"

definition strip :: "string \<Rightarrow> string" where
  "strip s = rev (dropWhile is_space (rev (dropWhile is_space s)))"

text \<open>
  \<^verbatim>\<open>s.isdigit()\<close>: the string is not empty and every character is a digit of Unicode.
  Below 256 these are 0 to 9 and the superscripts U+00B2, U+00B3 and U+00B9.
\<close>

definition is_digit :: "char \<Rightarrow> bool" where
  "is_digit c =
     ((48 \<le> (of_char c :: nat) \<and> (of_char c :: nat) \<le> 57) \<or>
      c = CHR 0xB2 \<or> c = CHR 0xB3 \<or> c = CHR 0xB9)"

definition isdigit :: "string \<Rightarrow> bool" where
  "isdigit s = (s \<noteq> [] \<and> list_all is_digit s)"

text \<open>A \<^verbatim>\<open>datetime.date\<close> and its \<^verbatim>\<open>isoformat()\<close>, \<^verbatim>\<open>"%04d-%02d-%02d"\<close>.\<close>

record date =
  year :: nat
  month :: nat
  day :: nat

definition isoformat :: "date \<Rightarrow> string" where
  "isoformat d =
     zero_pad 4 (str_nat (year d)) @ ''-'' @ zero_pad 2 (str_nat (month d)) @ ''-''
       @ zero_pad 2 (str_nat (day d))"


text \<open>\<^verbatim>\<open>_date_to_str\<close>, lines 63 to 65. Indexing a part that is not there raises IndexError.\<close>

definition date_to_str :: "date \<Rightarrow> error + string" where
  "date_to_str input_date =
     (let iso = isoformat input_date;
          date_part = split_on CHR ''-'' (hd (split_on CHR ''T'' (strip iso)))
      in case date_part of
           a # b # c # _ \<Rightarrow> Inr (a @ b @ c)
         | _ \<Rightarrow> Inl IndexError)"

section \<open>Flattening records: \<^verbatim>\<open>_parse_record_json\<close>\<close>

definition NYT_TEXT_FIELDS :: "string list" where
  "NYT_TEXT_FIELDS = [''headline'', ''lead_paragraph'', ''snippet'', ''abstract'', ''keywords'']"

text \<open>\<^verbatim>\<open>[kw["value"] for kw in doc[field] if kw]\<close> (line 37).\<close>

fun keyword_values :: "json list \<Rightarrow> error + json list" where
  "keyword_values [] = Inr []"
| "keyword_values (kw # kws) =
     (if truthy kw then
        (case py_getitem kw ''value'' of
           Inl e \<Rightarrow> Inl e
         | Inr v \<Rightarrow> (case keyword_values kws of Inl e \<Rightarrow> Inl e | Inr vs \<Rightarrow> Inr (v # vs)))
      else keyword_values kws)"

text \<open>Lines 33 to 40: the value of one field that the record has.\<close>

definition field_value :: "json \<Rightarrow> error + json" where
  "field_value v =
     (case v of
        JObj d \<Rightarrow> py_join '' '' (filter truthy (map snd d))
      | JList l \<Rightarrow> (case keyword_values l of Inl e \<Rightarrow> Inl e | Inr vs \<Rightarrow> py_join '' '' vs)
      | _ \<Rightarrow> Inr (if truthy v then v else JStr ''''))"

text \<open>Lines 31 to 41: a field that the record lacks appends nothing.\<close>

fun metas_fields :: "string list \<Rightarrow> json \<Rightarrow> error + json list" where
  "metas_fields [] doc = Inr []"
| "metas_fields (f # fs) doc =
     (case py_in f doc of
        Inl e \<Rightarrow> Inl e
      | Inr present \<Rightarrow>
          if present then
            (case py_getitem doc f of
               Inl e \<Rightarrow> Inl e
             | Inr v \<Rightarrow>
                 (case field_value v of
                    Inl e \<Rightarrow> Inl e
                  | Inr fv \<Rightarrow>
                      (case metas_fields fs doc of Inl e \<Rightarrow> Inl e | Inr row \<Rightarrow> Inr (fv # row))))
          else metas_fields fs doc)"

text \<open>\<^verbatim>\<open>[kw["value"] for kw in doc["keywords"] if kw["name"] == "glocations"]\<close> (line 45).\<close>

fun glocation_values :: "json list \<Rightarrow> error + json list" where
  "glocation_values [] = Inr []"
| "glocation_values (kw # kws) =
     (case py_getitem kw ''name'' of
        Inl e \<Rightarrow> Inl e
      | Inr n \<Rightarrow>
          if n = JStr ''glocations'' then
            (case py_getitem kw ''value'' of
               Inl e \<Rightarrow> Inl e
             | Inr v \<Rightarrow> (case glocation_values kws of Inl e \<Rightarrow> Inl e | Inr vs \<Rightarrow> Inr (v # vs)))
          else glocation_values kws)"

definition glocation :: "json \<Rightarrow> error + json" where
  "glocation doc =
     (case py_getitem doc ''keywords'' of
        Inl e \<Rightarrow> Inl e
      | Inr kws \<Rightarrow>
          (case py_iter kws of
             Inl e \<Rightarrow> Inl e
           | Inr items \<Rightarrow>
               (case glocation_values items of Inl e \<Rightarrow> Inl e | Inr vs \<Rightarrow> py_join '','' vs)))"

text \<open>
  Line 50, \<^verbatim>\<open>None if v is "" else v\<close>. CPython keeps one empty string object, so the
  identity test holds exactly for the empty string.
\<close>

definition normalise :: "json \<Rightarrow> json" where
  "normalise v = (if v = JStr '''' then JNull else v)"

text \<open>Lines 30 to 50: the row of one record, and its class value (line 48).\<close>

definition metas_row :: "string list \<Rightarrow> json \<Rightarrow> error + (json list \<times> json)" where
  "metas_row includes_metadata doc =
     (case metas_fields includes_metadata doc of
        Inl e \<Rightarrow> Inl e
      | Inr fvs \<Rightarrow>
          (case py_get doc ''pub_date'' (JStr '''') of
             Inl e \<Rightarrow> Inl e
           | Inr pub_date \<Rightarrow>
               (case glocation doc of
                  Inl e \<Rightarrow> Inl e
                | Inr loc \<Rightarrow>
                    (case py_get doc ''section_name'' JNull of
                       Inl e \<Rightarrow> Inl e
                     | Inr section_name \<Rightarrow>
                         Inr (map normalise (fvs @ [pub_date, loc]), section_name)))))"

text \<open>
  Line 51, \<^verbatim>\<open>np.array(metas_row)\<close>. A row that holds None, a dict, a list or an integer
  outside 64 bits becomes an object array and keeps its cells (a list makes the row
  ragged, which numpy stored as objects until version 1.24). Any other row holds only
  booleans, integers and strings, and at least one string, because its last cell, the
  location, is None or a string: numpy makes it a string array, writes each boolean or
  integer as \<^verbatim>\<open>str\<close> does, and gives a string back without the NUL characters at its
  end. Stacked onto the object array of line 28, the cells come back as Python strings.
\<close>

definition rstrip_nul :: "string \<Rightarrow> string" where
  "rstrip_nul t = rev (dropWhile (\<lambda>c. c = CHR 0x00) (rev t))"

definition object_cell :: "json \<Rightarrow> bool" where
  "object_cell c =
     (case c of
        JNull \<Rightarrow> True
      | JList l \<Rightarrow> True
      | JObj d \<Rightarrow> True
      | JInt i \<Rightarrow> i < - (2 ^ 63) \<or> 2 ^ 64 \<le> i
      | _ \<Rightarrow> False)"

definition np_str_cell :: "json \<Rightarrow> json" where
  "np_str_cell c =
     (case c of
        JBool b \<Rightarrow> JStr (if b then ''True'' else ''False'')
      | JInt i \<Rightarrow> JStr (if i < 0 then ''-'' @ str_nat (nat (- i)) else str_nat (nat i))
      | JStr t \<Rightarrow> JStr (rstrip_nul t)
      | _ \<Rightarrow> c)"

text \<open>The cell that is stored for \<open>c\<close>, in an object array and in a string array.\<close>

definition np_cell :: "bool \<Rightarrow> json \<Rightarrow> json" where
  "np_cell is_object c = (if is_object then c else np_str_cell c)"

definition np_array_row :: "json list \<Rightarrow> json list" where
  "np_array_row row = map (np_cell (list_ex object_cell row)) row"

text \<open>
  Line 51, \<^verbatim>\<open>np.vstack\<close>: it raises ValueError unless the row is as wide as the array
  allocated at line 28, \<^verbatim>\<open>len(includes_metadata) + 2\<close> columns.
\<close>

fun parse_loop ::
  "string list \<Rightarrow> json list \<Rightarrow> json list list \<times> json list \<Rightarrow> error + (json list list \<times> json list)"
where
  "parse_loop includes_metadata [] acc = Inr acc"
| "parse_loop includes_metadata (doc # docs) (metadata, class_values) =
     (case metas_row includes_metadata doc of
        Inl e \<Rightarrow> Inl e
      | Inr (row, section_name) \<Rightarrow>
          if length row = length includes_metadata + 2
          then parse_loop includes_metadata docs
                 (metadata @ [np_array_row row], class_values @ [section_name])
          else Inl ValueError)"

definition parse_record_json ::
  "json list \<Rightarrow> string list \<Rightarrow> error + (json list list \<times> json list)"
where
  "parse_record_json records includes_metadata = parse_loop includes_metadata records ([], [])"

section \<open>The NYT object, the cache and the network\<close>

text \<open>
  What \<^verbatim>\<open>urlopen\<close> and the read of the body do with a request: they give a status code
  and a body, or raise HTTPError, or URLError, or some other exception (a
  ConnectionResetError or an IncompleteRead while the body is read, for instance).
\<close>

datatype net_result =
    NetOk nat string
  | NetHTTPError
  | NetURLError
  | NetOther

text \<open>The four calls of \<^verbatim>\<open>warnings.warn\<close> (lines 150, 156, 164 and 229).\<close>

datatype warning =
    ApiKeyWarning
  | LimitWarning
  | PageWarning nat
  | NoQueryWarning

text \<open>
  What the module takes from outside: \<^verbatim>\<open>urllib.parse.urlencode\<close>, \<^verbatim>\<open>json.loads\<close> (None
  when it raises ValueError), the answer of the network to the \<open>n\<close>-th request of the
  process, today's date, the order in which \<^verbatim>\<open>list(set(xs))\<close> lists the distinct values
  of \<open>xs\<close> in this process, and \<^verbatim>\<open>DiscreteVariable.to_val\<close> of Orange for a variable with
  the given values (an index, None for an unknown value, or an exception).
\<close>

record env =
  urlencode :: "(string \<times> string) list \<Rightarrow> string"
  loads :: "string \<Rightarrow> json option"
  urlopen :: "nat \<Rightarrow> string \<Rightarrow> net_result"
  today :: date
  list_of_set :: "json list \<Rightarrow> json list"
  to_val :: "json list \<Rightarrow> json \<Rightarrow> error + int option"

text \<open>
  The fields of the NYT object, followed by the world it acts on: the shelve file
  (key to raw response), the URLs requested so far and the warnings emitted so far.
\<close>

record state =
  api_key :: string
  query_url :: "string option"
  query_key :: "string option"
  includes_fields :: "string list option"
  cache_path :: "string option"
  cache :: "string \<rightharpoonup> string"
  requests :: "string list"
  warnings :: "warning list"

definition base_url :: string where
  "base_url = ''http://api.nytimes.com/svc/search/v2/articlesearch.json''"

definition warn :: "warning \<Rightarrow> state \<Rightarrow> state" where
  "warn w s = s\<lparr>warnings := warnings s @ [w]\<rparr>"

definition encode_base_url :: "env \<Rightarrow> state \<Rightarrow> string \<Rightarrow> string" where
  "encode_base_url ev s query =
     urlencode ev [(''q'', query), (''fq'', ''The New York Times''), (''api-key'', api_key s)]"

text \<open>
  \<^verbatim>\<open>check_api_key\<close>: True on status 200, None on another status, False on HTTPError;
  any other exception of \<^verbatim>\<open>urlopen\<close> leaves the method.
\<close>

definition check_api_key :: "env \<Rightarrow> state \<Rightarrow> (error + bool option) \<times> state" where
  "check_api_key ev s =
     (let url = base_url @ ''?'' @ encode_base_url ev s ''test'' @ ''&page=0'';
          s' = s\<lparr>requests := requests s @ [url]\<rparr>
      in case urlopen ev (length (requests s)) url of
           NetOk code body \<Rightarrow> (Inr (if code = 200 then Some True else None), s')
         | NetHTTPError \<Rightarrow> (Inr (Some False), s')
         | NetURLError \<Rightarrow> (Inl URLError, s')
         | NetOther \<Rightarrow> (Inl OtherError, s'))"

text \<open>\<^verbatim>\<open>year and year.isdigit()\<close> for an optional string.\<close>

definition year_given :: "string option \<Rightarrow> bool" where
  "year_given y = (case y of None \<Rightarrow> False | Some t \<Rightarrow> t \<noteq> [] \<and> isdigit t)"

text \<open>
  \<^verbatim>\<open>_set_endpoint_url\<close>. With \<^verbatim>\<open>text_includes=None\<close> line 207 raises TypeError before
  the endpoint is stored.
\<close>

definition set_endpoint_url ::
  "env \<Rightarrow> state \<Rightarrow> string \<Rightarrow> string option \<Rightarrow> string option \<Rightarrow> string list option
     \<Rightarrow> (error + unit) \<times> state"
where
  "set_endpoint_url ev s query year_from year_to text_includes =
     (let url0 = encode_base_url ev s query in
      case date_to_str \<lparr>year = 1851, month = 1, day = 1\<rparr> of
        Inl e \<Rightarrow> (Inl e, s)
      | Inr sdate0 \<Rightarrow>
      (case date_to_str (today ev) of
        Inl e \<Rightarrow> (Inl e, s)
      | Inr edate0 \<Rightarrow>
      (let sdate = (if year_given year_from then the year_from @ ''0101'' else sdate0);
           url1 = (if year_given year_from then url0 @ ''&begin_date='' @ sdate else url0);
           edate = (if year_given year_to then the year_to @ ''1231'' else edate0);
           url2 = (if year_given year_to then url1 @ ''&end_date='' @ edate else url1);
           filled = (case text_includes of None \<Rightarrow> False | Some fl \<Rightarrow> fl \<noteq> []);
           s1 = (if filled then s\<lparr>includes_fields := text_includes\<rparr> else s);
           url3 = (if filled then url2 @ ''&fl='' @ join '','' (the text_includes) else url2);
           url4 = url3 @ '',pub_date'' @ '',section_name''
       in case text_includes of
            None \<Rightarrow> (Inl TypeError, s1)
          | Some fl \<Rightarrow>
              (let url5 = (if ''keywords'' \<notin> set fl then url4 @ '',keywords'' else url4);
                   s2 = s1\<lparr>query_url := Some (base_url @ ''?'' @ url5)\<rparr>;
                   key = [sdate, edate] @ split_on CHR '' '' query @ fl
               in (Inr (), s2\<lparr>query_key := Some (join ''_'' key)\<rparr>)))))"

text \<open>
  \<^verbatim>\<open>_execute_query\<close>. The result is (response_data, is_cached, error); after an HTTPError
  or URLError response_data is still the empty string of line 232. The raw response is
  stored (line 248) before it is parsed (line 250). The response is taken to offer
  \<^verbatim>\<open>readall()\<close>, as in the Python the module was written for, and its body to decode.
\<close>

definition execute_query ::
  "env \<Rightarrow> state \<Rightarrow> nat \<Rightarrow> (error + (json \<times> bool \<times> error option)) \<times> state"
where
  "execute_query ev s page =
     (let s1 = (if query_url s = None \<or> query_url s = Some [] then warn NoQueryWarning s else s) in
      case query_url s of
        None \<Rightarrow> (Inl TypeError, s1)
      | Some qurl \<Rightarrow>
      (case query_key s of
        None \<Rightarrow> (Inl TypeError, s1)
      | Some qkey \<Rightarrow>
      (let current_query = qurl @ ''&page='' @ str_nat page;
           current_query_key = qkey @ ''_'' @ str_nat page
       in case cache_path s of
            None \<Rightarrow> (Inl TypeError, s1)
          | Some path \<Rightarrow>
          (case cache s current_query_key of
             Some response \<Rightarrow>
               (case loads ev response of
                  None \<Rightarrow> (Inl ValueError, s1)
                | Some response_data \<Rightarrow> (Inr (response_data, True, None), s1))
           | None \<Rightarrow>
               (let s2 = s1\<lparr>requests := requests s1 @ [current_query]\<rparr> in
                case urlopen ev (length (requests s1)) current_query of
                  NetOk code response \<Rightarrow>
                    (let s3 = s2\<lparr>cache := (cache s2)(current_query_key \<mapsto> response)\<rparr> in
                     case loads ev response of
                       None \<Rightarrow> (Inl ValueError, s3)
                     | Some response_data \<Rightarrow> (Inr (response_data, False, None), s3))
                | NetHTTPError \<Rightarrow> (Inr (JStr '''', False, Some HTTPError), s2)
                | NetURLError \<Rightarrow> (Inr (JStr '''', False, Some URLError), s2)
                | NetOther \<Rightarrow> (Inl OtherError, s2))))))"

text \<open>
  Lines 162 and 166: the docs of a page, None when the test at line 162 calls the page a
  failure. The \<^verbatim>\<open>in\<close> tests, the subscripts and \<^verbatim>\<open>list.extend\<close> raise on values of the
  wrong type.
\<close>

definition page_docs :: "json \<Rightarrow> error + json list option" where
  "page_docs data =
     (if data = JNull then Inr None
      else case py_in ''response'' data of
        Inl e \<Rightarrow> Inl e
      | Inr has_response \<Rightarrow>
          if \<not> has_response then Inr None
          else (case py_getitem data ''response'' of
            Inl e \<Rightarrow> Inl e
          | Inr response \<Rightarrow>
              (case py_in ''docs'' response of
                 Inl e \<Rightarrow> Inl e
               | Inr has_docs \<Rightarrow>
                   if \<not> has_docs then Inr None
                   else (case py_getitem response ''docs'' of
                     Inl e \<Rightarrow> Inl e
                   | Inr docs \<Rightarrow>
                       (case py_iter docs of Inl e \<Rightarrow> Inl e | Inr ds \<Rightarrow> Inr (Some ds))))))"

text \<open>The body of the loop of \<^verbatim>\<open>run_query\<close>, lines 161 to 166, for page \<open>i\<close>.\<close>

definition fetch_page :: "env \<Rightarrow> nat \<Rightarrow> json list \<times> state \<Rightarrow> (error + json list) \<times> state" where
  "fetch_page ev i rs =
     (case execute_query ev (snd rs) i of
        (Inl e, s') \<Rightarrow> (Inl e, s')
      | (Inr (data, cached, err), s') \<Rightarrow>
          (case page_docs data of
             Inl e \<Rightarrow> (Inl e, s')
           | Inr None \<Rightarrow> (Inr (fst rs), warn (PageWarning i) s')
           | Inr (Some docs) \<Rightarrow> (Inr (fst rs @ docs), s')))"

fun fetch_loop :: "env \<Rightarrow> nat list \<Rightarrow> json list \<times> state \<Rightarrow> (error + json list) \<times> state" where
  "fetch_loop ev [] rs = (Inr (fst rs), snd rs)"
| "fetch_loop ev (i # pages) rs =
     (case fetch_page ev i rs of
        (Inl e, s') \<Rightarrow> (Inl e, s')
      | (Inr records, s') \<Rightarrow> fetch_loop ev pages (records, s'))"

text \<open>
  \<^verbatim>\<open>_generate_corpus\<close>. Line 80 joins the cells of a row that are not None, and raises
  TypeError at a cell that is no string. Line 85 raises TypeError when a class value is
  a list or a dict, which cannot be hashed. The constructors of Orange (StringVariable,
  DiscreteVariable, Domain, Corpus) are taken to return; the table is kept as what line 90
  hands to Corpus: the documents, the label vector, the rows, and of the domain the values
  of the class variable and the names of the meta variables.
\<close>

record corpus =
  documents :: "string list"
  Y :: "int option list"
  metas :: "json list list"
  class_var_values :: "json list"
  meta_vars :: "string list"

fun documents_of :: "json list list \<Rightarrow> error + string list" where
  "documents_of [] = Inr []"
| "documents_of (doc # rows) =
     (case str_items (filter (\<lambda>d. d \<noteq> JNull) doc) of
        Inl e \<Rightarrow> Inl e
      | Inr ds \<Rightarrow>
          (case documents_of rows of
             Inl e \<Rightarrow> Inl e
           | Inr texts \<Rightarrow> Inr (strip (join '' '' ds) # texts)))"

definition hashable :: "json \<Rightarrow> bool" where
  "hashable v = (case v of JList l \<Rightarrow> False | JObj d \<Rightarrow> False | _ \<Rightarrow> True)"

fun to_vals :: "(json \<Rightarrow> error + int option) \<Rightarrow> json list \<Rightarrow> error + int option list" where
  "to_vals f [] = Inr []"
| "to_vals f (cv # cvs) =
     (case f cv of
        Inl e \<Rightarrow> Inl e
      | Inr y \<Rightarrow> (case to_vals f cvs of Inl e \<Rightarrow> Inl e | Inr ys \<Rightarrow> Inr (y # ys)))"

definition generate_corpus :: "env \<Rightarrow> json list \<Rightarrow> string list \<Rightarrow> error + corpus" where
  "generate_corpus ev records required_text_fields =
     (case parse_record_json records required_text_fields of
        Inl e \<Rightarrow> Inl e
      | Inr (metas_rows, class_values) \<Rightarrow>
          (case documents_of metas_rows of
             Inl e \<Rightarrow> Inl e
           | Inr docs \<Rightarrow>
               if list_all hashable class_values then
                 (let vals = list_of_set ev class_values in
                  case to_vals (to_val ev vals) class_values of
                    Inl e \<Rightarrow> Inl e
                  | Inr ys \<Rightarrow>
                      Inr \<lparr>documents = docs, Y = ys, metas = metas_rows, class_var_values = vals,
                           meta_vars = required_text_fields @ [''pub_date'', ''country'']\<rparr>)
               else Inl TypeError))"

text \<open>Lines 168 and 169 of \<^verbatim>\<open>run_query\<close>: trimming the retrieved records.\<close>

definition trim_records :: "json list \<Rightarrow> int \<Rightarrow> json list" where
  "trim_records records max_records =
     (if int (length records) > max_records
      then py_slice_to records (max_records - int (length records))
      else records)"

text \<open>
  Line 158, \<^verbatim>\<open>min(math.ceil(max_records/10), 100)\<close>. The division is a float division: it
  raises OverflowError when the quotient rounds beyond the largest float, that is from
  \<open>10 * (2 ^ 1024 - 2 ^ 970)\<close> on in either direction. Below that the quotient is taken in
  the reals: the float has the same ceiling wherever that ceiling is between 0 and 100,
  a larger one is capped at 100, and a negative one gives the empty range either way.
\<close>

definition float_limit :: int where
  "float_limit = 10 * (2 ^ 1024 - 2 ^ 970)"

definition num_steps :: "int \<Rightarrow> error + int" where
  "num_steps max_records =
     (if float_limit \<le> \<bar>max_records\<bar> then Inl OverflowError
      else Inr (min \<lceil>real_of_int max_records / 10\<rceil> 100))"

text \<open>\<^verbatim>\<open>range(0, n)\<close>, line 160: empty when \<open>n\<close> is not positive.\<close>

definition py_range :: "int \<Rightarrow> nat list" where
  "py_range n = [0 ..< nat n]"

text \<open>\<^verbatim>\<open>run_query\<close>, lines 149 to 171.\<close>

definition run_query ::
  "env \<Rightarrow> state \<Rightarrow> string \<Rightarrow> string option \<Rightarrow> string option \<Rightarrow> int \<Rightarrow> (error + corpus) \<times> state"
where
  "run_query ev s query year_from year_to max_records =
     (case check_api_key ev s of
        (Inl e, s1) \<Rightarrow> (Inl e, s1)
      | (Inr valid, s1) \<Rightarrow>
      (let s2 = (if valid \<noteq> Some True then warn ApiKeyWarning s1 else s1) in
       case set_endpoint_url ev s2 query year_from year_to (Some NYT_TEXT_FIELDS) of
         (Inl e, s3) \<Rightarrow> (Inl e, s3)
       | (Inr u, s3) \<Rightarrow>
       (let s4 = (if max_records > 1000 then warn LimitWarning s3 else s3) in
        case num_steps max_records of
          Inl e \<Rightarrow> (Inl e, s4)
        | Inr n \<Rightarrow>
        (case fetch_loop ev (py_range n) ([], s4) of
          (Inl e, s5) \<Rightarrow> (Inl e, s5)
        | (Inr records, s5) \<Rightarrow>
            (case generate_corpus ev (trim_records records max_records) NYT_TEXT_FIELDS of
               Inl e \<Rightarrow> (Inl e, s5)
             | Inr c \<Rightarrow> (Inr c, s5))))))"

text \<open>The two exceptions that line 253 catches.\<close>

definition caught_error :: "net_result \<Rightarrow> bool" where
  "caught_error r = (r = NetHTTPError \<or> r = NetURLError)"

section \<open>Example inputs\<close>

text \<open>
  A record with a dict-valued field, a list-valued field, a string, a zero, three
  keywords (two of them glocations), a publication date and a section name.
\<close>

definition demo_record :: "(string \<times> json) list" where
  "demo_record = [
     (''headline'', JObj [(''a'', JStr ''x''), (''b'', JStr ''y'')]),
     (''tags'', JList [JObj [(''value'', JStr ''p'')], JObj [(''value'', JStr ''q'')]]),
     (''snippet'', JStr ''The Senate voted.''),
     (''word_count'', JInt 0),
     (''keywords'', JList [
        JObj [(''name'', JStr ''glocations''), (''value'', JStr ''Iraq'')],
        JObj [(''name'', JStr ''subject''), (''value'', JStr ''Budget'')],
        JObj [(''name'', JStr ''glocations''), (''value'', JStr ''Syria'')]]),
     (''pub_date'', JStr ''2015-03-05T00:00:00Z''),
     (''section_name'', JStr ''World'')]"

definition demo_fields :: "string list" where
  "demo_fields = [''headline'', ''tags'', ''snippet'', ''word_count'']"


text \<open>A record of the API that has every field of \<open>NYT_TEXT_FIELDS\<close> but the abstract.\<close>

definition doc_without_abstract :: json where
  "doc_without_abstract = JObj [
     (''headline'', JObj [(''main'', JStr ''Budget Vote'')]),
     (''lead_paragraph'', JStr ''The Senate voted.''),
     (''snippet'', JStr ''The Senate''),
     (''keywords'', JList []),
     (''pub_date'', JStr ''2015-03-05T00:00:00Z''),
     (''section_name'', JStr ''U.S.'')]"

text \<open>
  An environment for the examples. Its \<open>urlencode\<close> writes a space as a plus sign and
  leaves letters, digits and the hyphen alone, as \<^verbatim>\<open>urllib.parse.urlencode\<close> does; its
  \<open>loads\<close> knows one response body, a page with one record, and raises on any other text.
\<close>

definition plus_quote :: "string \<Rightarrow> string" where
  "plus_quote t = map (\<lambda>c. if c = CHR '' '' then CHR ''+'' else c) t"

definition demo_urlencode :: "(string \<times> string) list \<Rightarrow> string" where
  "demo_urlencode ps =
     join ''&'' (map (\<lambda>kv. plus_quote (fst kv) @ ''='' @ plus_quote (snd kv)) ps)"

definition dq :: "string \<Rightarrow> string" where
  "dq t = CHR 0x22 # t @ [CHR 0x22]"

definition demo_body :: string where
  "demo_body = concat [''{'', dq ''response'', '': {'', dq ''docs'', '': [{'',
     dq ''headline'', '': {'', dq ''main'', '': '', dq ''Budget Vote'', ''}, '',
     dq ''lead_paragraph'', '': '', dq ''The Senate voted.'', '', '',
     dq ''snippet'', '': '', dq ''The Senate'', '', '',
     dq ''abstract'', '': null, '',
     dq ''keywords'', '': [{'', dq ''name'', '': '', dq ''glocations'', '', '',
        dq ''value'', '': '', dq ''Iraq'', ''}], '',
     dq ''pub_date'', '': '', dq ''2015-03-05T00:00:00Z'', '', '',
     dq ''section_name'', '': '', dq ''World'', ''}]}}'']"

definition demo_json :: json where
  "demo_json = JObj [(''response'', JObj [(''docs'', JList [JObj [
     (''headline'', JObj [(''main'', JStr ''Budget Vote'')]),
     (''lead_paragraph'', JStr ''The Senate voted.''),
     (''snippet'', JStr ''The Senate''),
     (''abstract'', JNull),
     (''keywords'', JList [JObj [(''name'', JStr ''glocations''), (''value'', JStr ''Iraq'')]]),
     (''pub_date'', JStr ''2015-03-05T00:00:00Z''),
     (''section_name'', JStr ''World'')]])])]"

definition demo_loads :: "string \<Rightarrow> json option" where
  "demo_loads t = (if t = demo_body then Some demo_json else None)"

text \<open>
  \<open>to_val\<close> as Orange has it for the values met here: None is unknown, an integer or a
  boolean is its own value, a string is its index among the values, and it raises
  ValueError on a string that is not among them.
\<close>

fun index_of :: "json \<Rightarrow> json list \<Rightarrow> int option" where
  "index_of v [] = None"
| "index_of v (x # xs) =
     (if v = x then Some 0 else (case index_of v xs of None \<Rightarrow> None | Some i \<Rightarrow> Some (i + 1)))"

definition demo_to_val :: "json list \<Rightarrow> json \<Rightarrow> error + int option" where
  "demo_to_val vals v =
     (case v of
        JNull \<Rightarrow> Inr None
      | JInt i \<Rightarrow> Inr (Some i)
      | JBool b \<Rightarrow> Inr (Some (if b then 1 else 0))
      | JStr t \<Rightarrow> (case index_of v vals of None \<Rightarrow> Inl ValueError | Some i \<Rightarrow> Inr (Some i))
      | _ \<Rightarrow> Inl TypeError)"

text \<open>The service answers every request with that page, on 4 November 2026.\<close>

definition demo_env :: env where
  "demo_env = \<lparr>urlencode = demo_urlencode, loads = demo_loads,
     urlopen = (\<lambda>n u. NetOk 200 demo_body),
     today = \<lparr>year = 2026, month = 11, day = 4\<rparr>,
     list_of_set = remdups, to_val = demo_to_val\<rparr>"


text \<open>The second request of the process (the first page fetch) ends in an HTTPError.\<close>

definition flaky_env :: env where
  "flaky_env =
     demo_env\<lparr>urlopen := (\<lambda>n u. if n = 1 then NetHTTPError else NetOk 200 demo_body)\<rparr>"

text \<open>The probe is answered; every request after it ends in a URLError.\<close>

definition failing_env :: env where
  "failing_env =
     demo_env\<lparr>urlopen := (\<lambda>n u. if n = 0 then NetOk 200 demo_body else NetURLError)\<rparr>"

text \<open>The probe is answered; the connection of every request after it is reset.\<close>

definition reset_env :: env where
  "reset_env =
     demo_env\<lparr>urlopen := (\<lambda>n u. if n = 0 then NetOk 200 demo_body else NetOther)\<rparr>"

text \<open>No network: every request ends in a URLError.\<close>

definition offline_env :: env where
  "offline_env = demo_env\<lparr>urlopen := (\<lambda>n u. NetURLError)\<rparr>"

text \<open>A fresh NYT object with an empty cache, and one whose endpoint is already set.\<close>

definition demo_state :: state where
  "demo_state = \<lparr>api_key = ''k'', query_url = None, query_key = None, includes_fields = None,
     cache_path = Some ''nytcache/query_cache'', cache = Map.empty, requests = [], warnings = []\<rparr>"

definition ready_state :: state where
  "ready_state = demo_state\<lparr>query_url := Some (base_url @ ''?q=obama''),
     query_key := Some ''18510101_20261104_obama''\<rparr>"

text \<open>The example record with a word count of 12, and its row.\<close>

definition counted_record :: "(string \<times> json) list" where
  "counted_record =
     map (\<lambda>kv. if fst kv = ''word_count'' then (fst kv, JInt 12) else kv) demo_record"

definition counted_row :: "json list" where
  "counted_row = [JStr ''x y'', JStr ''p q'', JStr ''The Senate voted.'', JStr ''12'',
                  JStr ''2015-03-05T00:00:00Z'', JStr ''Iraq,Syria'']"



text \<open>The table made of the record with the word count alone.\<close>

definition counted_corpus :: corpus where
  "counted_corpus = \<lparr>documents = [''x y p q The Senate voted. 12 2015-03-05T00:00:00Z Iraq,Syria''],
     Y = [Some 0], metas = [counted_row], class_var_values = [JStr ''World''],
     meta_vars = [''headline'', ''tags'', ''snippet'', ''word_count'', ''pub_date'', ''country'']\<rparr>"

text \<open>The table of the one record that the service of the examples returns.\<close>

definition demo_corpus :: corpus where
  "demo_corpus = \<lparr>documents = [''Budget Vote The Senate voted. The Senate Iraq 2015-03-05T00:00:00Z Iraq''],
     Y = [Some 0],
     metas = [[JStr ''Budget Vote'', JStr ''The Senate voted.'', JStr ''The Senate'', JNull,
               JStr ''Iraq'', JStr ''2015-03-05T00:00:00Z'', JStr ''Iraq'']],
     class_var_values = [JStr ''World''],
     meta_vars = [''headline'', ''lead_paragraph'', ''snippet'', ''abstract'', ''keywords'',
                  ''pub_date'', ''country'']\<rparr>"

definition empty_corpus :: corpus where
  "empty_corpus = \<lparr>documents = [], Y = [], metas = [], class_var_values = [],
     meta_vars = [''headline'', ''lead_paragraph'', ''snippet'', ''abstract'', ''keywords'',
                  ''pub_date'', ''country'']\<rparr>"

text \<open>
  The probe of the examples, and the endpoint and the cache key of the query \<^verbatim>\<open>obama\<close>
  without year bounds on 4 November 2026.
\<close>

definition probe_request :: string where
  "probe_request = base_url @ ''?q=test&fq=The+New+York+Times&api-key=k&page=0''"

definition obama_url :: string where
  "obama_url = base_url @ ''?q=obama&fq=The+New+York+Times&api-key=k'' @
     ''&fl=headline,lead_paragraph,snippet,abstract,keywords,pub_date,section_name''"


section \<open>Trimming the retrieved records\<close>

lemma parse_loop_length:
  "parse_loop flds records (metadata, cls) = Inr (metadata', cls') \<Longrightarrow>
   length metadata' = length metadata + length records \<and> length cls' = length cls + length records"
proof (induction records arbitrary: metadata cls)
  case Nil
  then show ?case by simp
next
  case (Cons doc records)
  then show ?case
    by (fastforce split: sum.splits if_splits prod.splits)
qed

lemma documents_of_length: "documents_of rows = Inr docs \<Longrightarrow> length docs = length rows"
  by (induction rows arbitrary: docs) (auto split: sum.splits)

lemma to_vals_length: "to_vals f cvs = Inr ys \<Longrightarrow> length ys = length cvs"
  by (induction cvs arbitrary: ys) (auto split: sum.splits)

lemma generate_corpus_length:
  assumes "generate_corpus ev records flds = Inr c"
  shows "length (metas c) = length records \<and> length (documents c) = length records \<and>
         length (Y c) = length records"
proof -
  from assms obtain rows cls docs ys where
    p: "parse_loop flds records ([], []) = Inr (rows, cls)" and
    d: "documents_of rows = Inr docs" and
    y: "to_vals (to_val ev (list_of_set ev cls)) cls = Inr ys" and
    c: "metas c = rows" "documents c = docs" "Y c = ys"
    by (auto simp: generate_corpus_def parse_record_json_def Let_def split: sum.splits if_splits)
  from parse_loop_length [OF p] documents_of_length [OF d] to_vals_length [OF y] c
  show ?thesis by simp
qed

lemma counted_corpus_generated:
  "generate_corpus demo_env (trim_records [JObj counted_record, JObj demo_record] 1) demo_fields =
     Inr counted_corpus"
  by code_simp

text \<open>
  Claim C1. When more records were retrieved than \<open>max_records\<close>, the slice
  \<^verbatim>\<open>records[:(max_records-len(records))]\<close> has a negative bound and drops the surplus from
  the end: what is left is the first \<open>max_records\<close> records, exactly that many (none for
  a negative \<open>max_records\<close>, for which no page is fetched), and the table built from them
  has that many rows, documents and labels. When at most \<open>max_records\<close> records were
  retrieved the list is returned as it is.
\<close>

theorem trim_records_exact:
  "(max_records < int (length records) \<longrightarrow>
      trim_records records max_records = take (nat max_records) records \<and>
      length (trim_records records max_records) = nat max_records \<and>
      (\<forall>c. generate_corpus ev (trim_records records max_records) flds = Inr c \<longrightarrow>
           length (metas c) = nat max_records \<and> length (documents c) = nat max_records \<and>
           length (Y c) = nat max_records)) \<and>
   (int (length records) \<le> max_records \<longrightarrow> trim_records records max_records = records)"
proof -
  have a: "trim_records records max_records = take (nat max_records) records \<and>
      length (trim_records records max_records) = nat max_records"
    if "max_records < int (length records)"
    using that by (auto simp: trim_records_def py_slice_to_def)
  have b: "trim_records records max_records = records" if "int (length records) \<le> max_records"
    using that by (simp add: trim_records_def)
  have c: "length (metas c) = nat max_records \<and> length (documents c) = nat max_records \<and>
      length (Y c) = nat max_records"
    if "max_records < int (length records)"
      and "generate_corpus ev (trim_records records max_records) flds = Inr c" for c
    using generate_corpus_length [OF that(2)] a [OF that(1)] that(1) by auto
  from a b c show ?thesis by blast
qed

text \<open>
  Three records trimmed to two, two records left alone, and the table of two records
  trimmed to one.
\<close>

theorem trim_records_exact_witness:
  "trim_records [JInt 1, JInt 2, JInt 3] 2 = [JInt 1, JInt 2] \<and>
   length (trim_records [JInt 1, JInt 2, JInt 3] 2) = 2 \<and>
   trim_records [JInt 1, JInt 2] 2 = [JInt 1, JInt 2] \<and>
   generate_corpus demo_env (trim_records [JObj counted_record, JObj demo_record] 1) demo_fields =
     Inr counted_corpus \<and>
   length (metas counted_corpus) = 1 \<and> length (documents counted_corpus) = 1 \<and>
   length (Y counted_corpus) = 1"
  using trim_records_exact [of 2 "[JInt 1, JInt 2, JInt 3]"]
    trim_records_exact [of 2 "[JInt 1, JInt 2]"]
    trim_records_exact [of 1 "[JObj counted_record, JObj demo_record]" demo_env demo_fields]
    counted_corpus_generated
  by simp

section \<open>Flattening a record\<close>




















text \<open>
  Claim C2, at its failing input. A record without the abstract gets a row of six cells,
  one short of the seven columns allocated at line 28, and \<^verbatim>\<open>np.vstack\<close> raises ValueError:
  the absent field appends nothing, because line 41 sits inside the test of line 32.
\<close>

theorem absent_field_raises:
  "parse_record_json [doc_without_abstract] NYT_TEXT_FIELDS = Inl ValueError"
  by (simp add: parse_record_json_def doc_without_abstract_def NYT_TEXT_FIELDS_def metas_row_def
      field_value_def py_join_def glocation_def normalise_def)








section \<open>Digits, padding and dates\<close>

declare str_nat.simps [simp del]

lemma is_digit_digit_char: "d < 10 \<Longrightarrow> is_digit (digit_char d)"
  by (simp add: is_digit_def digit_char_def)

lemma str_nat_digits: "list_all is_digit (str_nat n)"
proof (induction n rule: str_nat.induct)
  case (1 n)
  show ?case
  proof (cases "n < 10")
    case True
    then show ?thesis by (subst str_nat.simps) (simp add: is_digit_digit_char)
  next
    case False
    with 1 show ?thesis by (subst str_nat.simps) (simp add: is_digit_digit_char)
  qed
qed

lemma str_nat_nonempty: "str_nat n \<noteq> []"
  by (subst str_nat.simps) simp

lemma zero_pad_digits: "list_all is_digit t \<Longrightarrow> list_all is_digit (zero_pad w t)"
  by (auto simp: zero_pad_def is_digit_def list_all_iff)

lemma zero_pad_nonempty: "t \<noteq> [] \<Longrightarrow> zero_pad w t \<noteq> []"
  by (simp add: zero_pad_def)

lemma digit_not_sep: "is_digit c \<Longrightarrow> c \<noteq> CHR ''-'' \<and> c \<noteq> CHR ''T'' \<and> \<not> is_space c"
  by (auto simp: is_digit_def is_space_def)

lemma split_on_absent: "sep \<notin> set t \<Longrightarrow> split_on sep t = [t]"
  by (induction t) auto

lemma split_on_append:
  "sep \<notin> set a \<Longrightarrow> split_on sep (a @ sep # rest) = a # split_on sep rest"
  by (induction a) auto

lemma digits_no_char: "list_all is_digit t \<Longrightarrow> \<not> is_digit c \<Longrightarrow> c \<notin> set t"
  by (auto simp: list_all_iff)

lemma strip_digits_ends:
  assumes "t \<noteq> []" "\<not> is_space (hd t)" "\<not> is_space (last t)"
  shows "strip t = t"
proof -
  from assms have a: "dropWhile is_space t = t" by (cases t) auto
  from assms have "rev t \<noteq> []" "\<not> is_space (hd (rev t))" by (simp_all add: hd_rev)
  then have "dropWhile is_space (rev t) = rev t" by (cases "rev t") auto
  with a show ?thesis by (simp add: strip_def)
qed

lemma not_digit_dash: "\<not> is_digit CHR ''-''"
  by (simp add: is_digit_def)

lemma not_digit_T: "\<not> is_digit CHR ''T''"
  by (simp add: is_digit_def)

lemma date_to_str_eq:
  "date_to_str d =
     Inr (zero_pad 4 (str_nat (year d)) @ zero_pad 2 (str_nat (month d)) @ zero_pad 2 (str_nat (day d)))"
proof -
  define a where "a = zero_pad 4 (str_nat (year d))"
  define b where "b = zero_pad 2 (str_nat (month d))"
  define c where "c = zero_pad 2 (str_nat (day d))"
  have da: "list_all is_digit a" and db: "list_all is_digit b" and dc: "list_all is_digit c"
    by (simp_all add: a_def b_def c_def zero_pad_digits str_nat_digits)
  have na: "a \<noteq> []" and nc: "c \<noteq> []"
    by (simp_all add: a_def c_def zero_pad_nonempty str_nat_nonempty)
  have iso: "isoformat d = a @ CHR ''-'' # b @ CHR ''-'' # c"
    by (simp add: isoformat_def a_def b_def c_def)
  have hd_iso: "hd (isoformat d) = hd a" using na by (simp add: iso)
  have last_iso: "last (isoformat d) = last c" using nc by (simp add: iso)
  have "is_digit (hd a)" using da na by (cases a) auto
  then have h1: "\<not> is_space (hd (isoformat d))" using digit_not_sep hd_iso by simp
  have "is_digit (last c)" using dc nc by (auto simp: list_all_iff)
  then have h2: "\<not> is_space (last (isoformat d))" using digit_not_sep last_iso by simp
  have st: "strip (isoformat d) = isoformat d"
    using strip_digits_ends [OF _ h1 h2] by (simp add: iso)
  have noT: "CHR ''T'' \<notin> set (isoformat d)"
    using digits_no_char [OF da not_digit_T] digits_no_char [OF db not_digit_T]
      digits_no_char [OF dc not_digit_T] by (simp add: iso)
  have sp: "split_on CHR ''-'' (isoformat d) = [a, b, c]"
    using digits_no_char [OF da not_digit_dash] digits_no_char [OF db not_digit_dash]
      digits_no_char [OF dc not_digit_dash]
    by (simp add: iso split_on_append split_on_absent)
  show ?thesis
    by (simp add: date_to_str_def st split_on_absent [OF noT] sp a_def b_def c_def)
qed
















text \<open>A superscript two is a digit for \<^verbatim>\<open>isdigit\<close>; the letter x is not.\<close>

lemma isdigit_superscript: "isdigit [CHR 0xB2]"
  by (simp add: isdigit_def is_digit_def)

section \<open>One page fetch and the loop over pages\<close>

lemma execute_query_cached:
  assumes "query_url s = Some u" "u \<noteq> []" "query_key s = Some k" "cache_path s = Some p"
    and "cache s (k @ ''_'' @ str_nat i) = Some response"
  shows "execute_query ev s i =
           (case loads ev response of
              None \<Rightarrow> (Inl ValueError, s)
            | Some d \<Rightarrow> (Inr (d, True, None), s))"
  using assms by (simp add: execute_query_def split: option.splits)

lemma execute_query_miss:
  assumes "query_url s = Some u" "u \<noteq> []" "query_key s = Some k" "cache_path s = Some p"
    and "cache s (k @ ''_'' @ str_nat i) = None"
  shows "execute_query ev s i =
           (case urlopen ev (length (requests s)) (u @ ''&page='' @ str_nat i) of
              NetOk code response \<Rightarrow>
                (case loads ev response of
                   None \<Rightarrow> Inl ValueError
                 | Some d \<Rightarrow> Inr (d, False, None),
                 s\<lparr>requests := requests s @ [u @ ''&page='' @ str_nat i],
                   cache := (cache s)(k @ ''_'' @ str_nat i \<mapsto> response)\<rparr>)
            | NetHTTPError \<Rightarrow>
                (Inr (JStr '''', False, Some HTTPError),
                 s\<lparr>requests := requests s @ [u @ ''&page='' @ str_nat i]\<rparr>)
            | NetURLError \<Rightarrow>
                (Inr (JStr '''', False, Some URLError),
                 s\<lparr>requests := requests s @ [u @ ''&page='' @ str_nat i]\<rparr>)
            | NetOther \<Rightarrow>
                (Inl OtherError, s\<lparr>requests := requests s @ [u @ ''&page='' @ str_nat i]\<rparr>))"
  using assms by (simp add: execute_query_def Let_def split: option.splits net_result.splits)

lemma page_docs_empty_string: "page_docs (JStr '''') = Inr None"
  by (simp add: page_docs_def)

lemma fetch_page_caught:
  assumes "query_url s = Some u" "u \<noteq> []" "query_key s = Some k" "cache_path s = Some p"
    and "cache s (k @ ''_'' @ str_nat i) = None"
    and "caught_error (urlopen ev (length (requests s)) (u @ ''&page='' @ str_nat i))"
  shows "fetch_page ev i (records, s) =
           (Inr records, s\<lparr>requests := requests s @ [u @ ''&page='' @ str_nat i],
                           warnings := warnings s @ [PageWarning i]\<rparr>)"
  using assms(6)
  by (auto simp: fetch_page_def execute_query_miss [OF assms(1-5)] caught_error_def
      page_docs_empty_string warn_def)

lemma fetch_page_cached:
  assumes "query_url s = Some u" "u \<noteq> []" "query_key s = Some k" "cache_path s = Some p"
    and "cache s (k @ ''_'' @ str_nat i) = Some response"
  shows "fetch_page ev i (records, s) =
           (case loads ev response of
              None \<Rightarrow> (Inl ValueError, s)
            | Some d \<Rightarrow>
                (case page_docs d of
                   Inl e \<Rightarrow> (Inl e, s)
                 | Inr None \<Rightarrow> (Inr records, warn (PageWarning i) s)
                 | Inr (Some docs) \<Rightarrow> (Inr (records @ docs), s)))"
  by (auto simp: fetch_page_def execute_query_cached [OF assms] split: option.splits sum.splits)

lemma fetch_page_fetched:
  assumes "query_url s = Some u" "u \<noteq> []" "query_key s = Some k" "cache_path s = Some p"
    and "cache s (k @ ''_'' @ str_nat i) = None"
    and "urlopen ev (length (requests s)) (u @ ''&page='' @ str_nat i) = NetOk code response"
  shows "fetch_page ev i (records, s) =
           (let s' = s\<lparr>requests := requests s @ [u @ ''&page='' @ str_nat i],
                        cache := (cache s)(k @ ''_'' @ str_nat i \<mapsto> response)\<rparr>
            in case loads ev response of
              None \<Rightarrow> (Inl ValueError, s')
            | Some d \<Rightarrow>
                (case page_docs d of
                   Inl e \<Rightarrow> (Inl e, s')
                 | Inr None \<Rightarrow> (Inr records, warn (PageWarning i) s')
                 | Inr (Some docs) \<Rightarrow> (Inr (records @ docs), s')))"
  using assms(6)
  by (auto simp: fetch_page_def execute_query_miss [OF assms(1-5)] Let_def
      split: option.splits sum.splits)

lemma execute_query_frame:
  assumes "execute_query ev s i = (r, s')"
  shows "api_key s' = api_key s \<and> query_url s' = query_url s \<and> query_key s' = query_key s \<and>
         includes_fields s' = includes_fields s \<and> cache_path s' = cache_path s \<and>
         cache s \<subseteq>\<^sub>m cache s' \<and>
         (\<forall>k. query_key s = Some k \<longrightarrow> dom (cache s') \<subseteq> insert (k @ ''_'' @ str_nat i) (dom (cache s))) \<and>
         (\<exists>rq. requests s' = requests s @ rq) \<and>
         (\<exists>ws. warnings s' = warnings s @ ws \<and> LimitWarning \<notin> set ws \<and> ApiKeyWarning \<notin> set ws)"
  using assms
  by (auto simp: execute_query_def Let_def warn_def map_le_def
      split: option.splits net_result.splits if_splits)

lemma fetch_page_miss_requests:
  assumes "query_url s = Some u" "u \<noteq> []" "query_key s = Some k" "cache_path s = Some p"
    and "cache s (k @ ''_'' @ str_nat i) = None"
  shows "requests (snd (fetch_page ev i (records, s))) = requests s @ [u @ ''&page='' @ str_nat i]"
  by (auto simp: fetch_page_def execute_query_miss [OF assms] warn_def
      split: net_result.splits option.splits sum.splits)

lemma fetch_page_other:
  assumes "query_url s = Some u" "u \<noteq> []" "query_key s = Some k" "cache_path s = Some p"
    and "cache s (k @ ''_'' @ str_nat i) = None"
    and "urlopen ev (length (requests s)) (u @ ''&page='' @ str_nat i) = NetOther"
  shows "fetch_page ev i (records, s) =
           (Inl OtherError, s\<lparr>requests := requests s @ [u @ ''&page='' @ str_nat i]\<rparr>)"
  using assms(6) by (simp add: fetch_page_def execute_query_miss [OF assms(1-5)])

lemma fetch_page_frame:
  assumes "fetch_page ev i (records, s) = (r, s')"
  shows "api_key s' = api_key s \<and> query_url s' = query_url s \<and> query_key s' = query_key s \<and>
         includes_fields s' = includes_fields s \<and> cache_path s' = cache_path s \<and>
         cache s \<subseteq>\<^sub>m cache s' \<and>
         (\<forall>k. query_key s = Some k \<longrightarrow> dom (cache s') \<subseteq> insert (k @ ''_'' @ str_nat i) (dom (cache s))) \<and>
         (\<exists>rq. requests s' = requests s @ rq) \<and>
         (\<exists>ws. warnings s' = warnings s @ ws \<and> LimitWarning \<notin> set ws \<and> ApiKeyWarning \<notin> set ws)"
proof (cases "execute_query ev s i")
  case (Pair q t)
  note fr = execute_query_frame [OF Pair]
  have "s' = t \<or> s' = warn (PageWarning i) t"
    using assms Pair by (auto simp: fetch_page_def split: sum.splits option.splits)
  then show ?thesis
  proof
    assume "s' = t"
    with fr show ?thesis by simp
  next
    assume w: "s' = warn (PageWarning i) t"
    from fr obtain ws where "warnings t = warnings s @ ws" "LimitWarning \<notin> set ws"
      "ApiKeyWarning \<notin> set ws" by blast
    then have "warnings s' = warnings s @ (ws @ [PageWarning i]) \<and>
      LimitWarning \<notin> set (ws @ [PageWarning i]) \<and> ApiKeyWarning \<notin> set (ws @ [PageWarning i])"
      using w by (simp add: warn_def)
    then have "\<exists>ws. warnings s' = warnings s @ ws \<and> LimitWarning \<notin> set ws \<and> ApiKeyWarning \<notin> set ws"
      by blast
    with fr w show ?thesis by (simp add: warn_def)
  qed
qed

lemma fetch_loop_frame:
  "fetch_loop ev pages (records, s) = (r, s') \<Longrightarrow>
     api_key s' = api_key s \<and> query_url s' = query_url s \<and> query_key s' = query_key s \<and>
     includes_fields s' = includes_fields s \<and> cache_path s' = cache_path s \<and>
     cache s \<subseteq>\<^sub>m cache s' \<and>
     (\<forall>k. query_key s = Some k \<longrightarrow>
        dom (cache s') \<subseteq> dom (cache s) \<union> (\<lambda>i. k @ ''_'' @ str_nat i) ` set pages) \<and>
     (\<exists>rq. requests s' = requests s @ rq) \<and>
     (\<exists>ws. warnings s' = warnings s @ ws \<and> LimitWarning \<notin> set ws \<and> ApiKeyWarning \<notin> set ws)"
proof (induction pages arbitrary: records s)
  case Nil
  then show ?case by simp
next
  case (Cons i pages)
  obtain q t where step: "fetch_page ev i (records, s) = (q, t)" by (cases "fetch_page ev i (records, s)")
  note f1 = fetch_page_frame [OF step]
  show ?case
  proof (cases q)
    case (Inl e)
    with Cons.prems step have "s' = t" by simp
    with f1 show ?thesis by auto
  next
    case (Inr records')
    with Cons.prems step have "fetch_loop ev pages (records', t) = (r, s')" by simp
    note f2 = Cons.IH [OF this]
    from f1 f2 obtain rq1 rq2 where "requests t = requests s @ rq1" "requests s' = requests t @ rq2"
      by blast
    then have rq: "\<exists>rq. requests s' = requests s @ rq" by simp
    from f1 f2 obtain ws1 ws2 where "warnings t = warnings s @ ws1" "warnings s' = warnings t @ ws2"
      "LimitWarning \<notin> set ws1" "LimitWarning \<notin> set ws2"
      "ApiKeyWarning \<notin> set ws1" "ApiKeyWarning \<notin> set ws2"
      by blast
    then have "warnings s' = warnings s @ (ws1 @ ws2) \<and> LimitWarning \<notin> set (ws1 @ ws2) \<and>
      ApiKeyWarning \<notin> set (ws1 @ ws2)" by simp
    then have ws: "\<exists>ws. warnings s' = warnings s @ ws \<and> LimitWarning \<notin> set ws \<and> ApiKeyWarning \<notin> set ws"
      by blast
    from f1 f2 have le: "cache s \<subseteq>\<^sub>m cache s'" by (blast intro: map_le_trans)
    have dm: "\<forall>k. query_key s = Some k \<longrightarrow>
        dom (cache s') \<subseteq> dom (cache s) \<union> (\<lambda>i. k @ ''_'' @ str_nat i) ` set (i # pages)"
    proof (intro allI impI)
      fix k assume k: "query_key s = Some k"
      with f1 have 1: "dom (cache t) \<subseteq> insert (k @ ''_'' @ str_nat i) (dom (cache s))" by blast
      from f1 k have "query_key t = Some k" by simp
      with f2 have 2: "dom (cache s') \<subseteq> dom (cache t) \<union> (\<lambda>i. k @ ''_'' @ str_nat i) ` set pages"
        by blast
      from 1 2 show "dom (cache s') \<subseteq> dom (cache s) \<union> (\<lambda>i. k @ ''_'' @ str_nat i) ` set (i # pages)"
        by (simp only: list.set image_insert) blast
    qed
    from f1 f2 rq ws le dm show ?thesis by simp
  qed
qed

lemma fetch_loop_all_fail:
  assumes "query_url s = Some u" "u \<noteq> []" "query_key s = Some k" "cache_path s = Some p"
    and "\<forall>i\<in>set pages. cache s (k @ ''_'' @ str_nat i) = None"
    and "\<forall>n v. length (requests s) \<le> n \<longrightarrow> caught_error (urlopen ev n v)"
  shows "fetch_loop ev pages (records, s) =
           (Inr records, s\<lparr>requests := requests s @ map (\<lambda>i. u @ ''&page='' @ str_nat i) pages,
                           warnings := warnings s @ map PageWarning pages\<rparr>)"
  using assms
proof (induction pages arbitrary: s)
  case Nil
  then show ?case by simp
next
  case (Cons i pages)
  let ?t = "s\<lparr>requests := requests s @ [u @ ''&page='' @ str_nat i],
               warnings := warnings s @ [PageWarning i]\<rparr>"
  have step: "fetch_page ev i (records, s) = (Inr records, ?t)"
    using Cons.prems by (intro fetch_page_caught) auto
  have "fetch_loop ev pages (records, ?t) =
          (Inr records, ?t\<lparr>requests := requests ?t @ map (\<lambda>i. u @ ''&page='' @ str_nat i) pages,
                           warnings := warnings ?t @ map PageWarning pages\<rparr>)"
    using Cons.prems by (intro Cons.IH) auto
  with step show ?case by simp
qed

lemma fetch_page_cache_path:
  "fetch_page ev i (records, s) = (Inr r1, s1) \<Longrightarrow> \<exists>p. cache_path s = Some p"
  by (auto simp: fetch_page_def execute_query_def Let_def split: option.splits)


lemma check_api_key_state:
  "snd (check_api_key ev s) =
     s\<lparr>requests := requests s @ [base_url @ ''?'' @ encode_base_url ev s ''test'' @ ''&page=0'']\<rparr>"
  by (simp add: check_api_key_def Let_def split: net_result.splits)

lemma check_api_key_ok:
  "urlopen ev (length (requests s)) (base_url @ ''?'' @ encode_base_url ev s ''test'' @ ''&page=0'')
     = NetOk code body \<Longrightarrow>
   fst (check_api_key ev s) = Inr (if code = 200 then Some True else None)"
  by (simp add: check_api_key_def Let_def)

lemma set_endpoint_url_Some:
  "\<exists>u k. u \<noteq> [] \<and>
     (\<forall>t. api_key t = api_key (s::state) \<longrightarrow>
        set_endpoint_url ev t query year_from year_to (Some fl) =
          (Inr (), t\<lparr>includes_fields := (if fl = [] then includes_fields t else Some fl),
                     query_url := Some u, query_key := Some k\<rparr>))"
proof -
  obtain r s' where r: "set_endpoint_url ev s query year_from year_to (Some fl) = (r, s')"
    by (cases "set_endpoint_url ev s query year_from year_to (Some fl)")
  define u where "u = the (query_url s')"
  define k where "k = the (query_key s')"
  have "u \<noteq> []"
    using r by (auto simp: u_def set_endpoint_url_def date_to_str_eq Let_def base_url_def)
  moreover have "set_endpoint_url ev t query year_from year_to (Some fl) =
          (Inr (), t\<lparr>includes_fields := (if fl = [] then includes_fields t else Some fl),
                     query_url := Some u, query_key := Some k\<rparr>)" if "api_key t = api_key s" for t
    using r that
    by (auto simp: u_def k_def set_endpoint_url_def date_to_str_eq Let_def encode_base_url_def)
  ultimately show ?thesis by blast
qed

text \<open>The table of no records.\<close>

lemma generate_corpus_empty:
  "generate_corpus ev [] flds =
     Inr \<lparr>documents = [], Y = [], metas = [], class_var_values = list_of_set ev [],
          meta_vars = flds @ [''pub_date'', ''country'']\<rparr>"
  by (simp add: generate_corpus_def parse_record_json_def)

lemma trim_records_empty: "trim_records [] m = []"
  by (simp add: trim_records_def py_slice_to_def)

section \<open>Replaying a loop against the cache it filled\<close>

lemma fetch_page_replay:
  assumes run: "fetch_page ev i (records, s) = (Inr r1, s1)"
    and s: "query_url s = Some u" "u \<noteq> []" "query_key s = Some k" "cache_path s = Some p"
    and t: "query_url t = Some u" "query_key t = Some k" "cache_path t = Some p'"
    and le: "cache s1 \<subseteq>\<^sub>m cache t"
    and net: "\<exists>code body. urlopen ev (length (requests s)) (u @ ''&page='' @ str_nat i) = NetOk code body"
  shows "\<exists>ws. fetch_page ev i (records, t) = (Inr r1, t\<lparr>warnings := warnings t @ ws\<rparr>)"
proof -
  let ?key = "k @ ''_'' @ str_nat i"
  have "\<exists>response d x. cache s1 ?key = Some response \<and> loads ev response = Some d \<and>
          page_docs d = Inr x \<and> r1 = records @ (case x of None \<Rightarrow> [] | Some docs \<Rightarrow> docs)"
  proof (cases "cache s ?key")
    case (Some response)
    from run show ?thesis
      unfolding fetch_page_cached [OF s Some]
      using Some by (fastforce simp: warn_def split: option.splits sum.splits)
  next
    case None
    from net obtain code response where
      ok: "urlopen ev (length (requests s)) (u @ ''&page='' @ str_nat i) = NetOk code response"
      by blast
    from run show ?thesis
      unfolding fetch_page_fetched [OF s None ok]
      by (fastforce simp: warn_def Let_def split: option.splits sum.splits)
  qed
  then obtain response d x where c1: "cache s1 ?key = Some response" and
    d: "loads ev response = Some d" and x: "page_docs d = Inr x" and
    r1: "r1 = records @ (case x of None \<Rightarrow> [] | Some docs \<Rightarrow> docs)"
    by blast
  from le c1 have ct: "cache t ?key = Some response"
    by (auto simp: map_le_def dom_def)
  show ?thesis
  proof (cases x)
    case None
    with d x r1 have "fetch_page ev i (records, t) = (Inr r1, t\<lparr>warnings := warnings t @ [PageWarning i]\<rparr>)"
      unfolding fetch_page_cached [OF t(1) s(2) t(2,3) ct] by (simp add: warn_def)
    then show ?thesis by blast
  next
    case (Some docs)
    with d x r1 have "fetch_page ev i (records, t) = (Inr r1, t\<lparr>warnings := warnings t @ []\<rparr>)"
      unfolding fetch_page_cached [OF t(1) s(2) t(2,3) ct] by simp
    then show ?thesis by blast
  qed
qed

lemma fetch_page_replay_same_path:
  assumes run: "fetch_page ev i (records, s) = (Inr r1, s1)"
    and s: "query_url s = Some u" "u \<noteq> []" "query_key s = Some k"
    and t: "query_url t = Some u" "query_key t = Some k" "cache_path t = cache_path s"
    and le: "cache s1 \<subseteq>\<^sub>m cache t"
    and net: "\<exists>code body. urlopen ev (length (requests s)) (u @ ''&page='' @ str_nat i) = NetOk code body"
  shows "\<exists>ws. fetch_page ev i (records, t) = (Inr r1, t\<lparr>warnings := warnings t @ ws\<rparr>)"
proof -
  from fetch_page_cache_path [OF run] obtain p where p: "cache_path s = Some p" by blast
  with t have "cache_path t = Some p" by simp
  from fetch_page_replay [OF run s p t(1,2) this le net] show ?thesis .
qed

lemma run_query_probe:
  "fst (run_query ev s query year_from year_to max_records) = Inr c \<Longrightarrow>
   \<exists>v. fst (check_api_key ev s) = Inr v"
  by (cases "check_api_key ev s") (auto simp: run_query_def split: sum.splits)

lemma encode_base_url_api_key:
  "api_key t = api_key s \<Longrightarrow> encode_base_url ev t query = encode_base_url ev s query"
  by (simp add: encode_base_url_def)

lemma fetch_loop_replay:
  assumes "fetch_loop ev pages (records, s) = (Inr records', s')"
    and "query_url s = Some u" "u \<noteq> []" "query_key s = Some k"
    and "query_url t = Some u" "query_key t = Some k" "cache_path t = cache_path s"
    and "cache s' \<subseteq>\<^sub>m cache t"
    and "\<forall>n w. length (requests s) \<le> n \<longrightarrow> (\<exists>code body. urlopen ev n w = NetOk code body)"
  shows "\<exists>ws. fetch_loop ev pages (records, t) = (Inr records', t\<lparr>warnings := warnings t @ ws\<rparr>)"
  using assms
proof (induction pages arbitrary: records s t)
  case Nil
  then have "fetch_loop ev [] (records, t) = (Inr records', t\<lparr>warnings := warnings t @ []\<rparr>)"
    by simp
  then show ?case by blast
next
  case (Cons i pages)
  obtain q s1 where step: "fetch_page ev i (records, s) = (q, s1)"
    by (cases "fetch_page ev i (records, s)")
  from Cons.prems(1) step obtain r1 where q: "q = Inr r1" and
    rest: "fetch_loop ev pages (r1, s1) = (Inr records', s')"
    by (cases q) auto
  note f1 = fetch_page_frame [OF step]
  note f2 = fetch_loop_frame [OF rest]
  from f2 Cons.prems(8) have le1: "cache s1 \<subseteq>\<^sub>m cache t" by (blast intro: map_le_trans)
  from Cons.prems(9) have net: "\<exists>code body.
      urlopen ev (length (requests s)) (u @ ''&page='' @ str_nat i) = NetOk code body"
    by simp
  from fetch_page_replay_same_path [OF step [unfolded q] Cons.prems(2-7) le1 net]
  obtain ws1 where t1: "fetch_page ev i (records, t) = (Inr r1, t\<lparr>warnings := warnings t @ ws1\<rparr>)"
    by blast
  let ?t1 = "t\<lparr>warnings := warnings t @ ws1\<rparr>"
  from f1 obtain rq where "requests s1 = requests s @ rq" by blast
  with Cons.prems(9) have net1:
    "\<forall>n w. length (requests s1) \<le> n \<longrightarrow> (\<exists>code body. urlopen ev n w = NetOk code body)"
    by simp
  from f1 Cons.prems(2-4) have a: "query_url s1 = Some u" "query_key s1 = Some k" by simp_all
  from f1 Cons.prems(5-8) have b: "query_url ?t1 = Some u" "query_key ?t1 = Some k"
    "cache_path ?t1 = cache_path s1" "cache s' \<subseteq>\<^sub>m cache ?t1" by simp_all
  have "\<exists>ws. fetch_loop ev pages (r1, ?t1) = (Inr records', ?t1\<lparr>warnings := warnings ?t1 @ ws\<rparr>)"
    by (rule Cons.IH [OF rest a(1) Cons.prems(3) a(2) b net1])
  then obtain ws2 where
    "fetch_loop ev pages (r1, ?t1) = (Inr records', ?t1\<lparr>warnings := warnings ?t1 @ ws2\<rparr>)"
    by blast
  with t1 have "fetch_loop ev (i # pages) (records, t) =
      (Inr records', t\<lparr>warnings := warnings t @ (ws1 @ ws2)\<rparr>)"
    by simp
  then show ?case by blast
qed

section \<open>The steps of a run\<close>









lemma run_query_steps:
  assumes v: "fst (check_api_key ev s) = Inr v"
    and ep: "\<forall>t. api_key t = api_key s \<longrightarrow>
        set_endpoint_url ev t query year_from year_to (Some NYT_TEXT_FIELDS) =
          (Inr (), t\<lparr>includes_fields := Some NYT_TEXT_FIELDS, query_url := Some u,
                     query_key := Some k\<rparr>)"
  shows "run_query ev s query year_from year_to max_records =
     (case num_steps max_records of
        Inl e \<Rightarrow> (Inl e,
          s\<lparr>requests := requests s @ [base_url @ ''?'' @ encode_base_url ev s ''test'' @ ''&page=0''],
            includes_fields := Some NYT_TEXT_FIELDS, query_url := Some u, query_key := Some k,
            warnings := warnings s @ (if v \<noteq> Some True then [ApiKeyWarning] else [])
                          @ (if 1000 < max_records then [LimitWarning] else [])\<rparr>)
      | Inr n \<Rightarrow>
     (case fetch_loop ev (py_range n) ([],
          s\<lparr>requests := requests s @ [base_url @ ''?'' @ encode_base_url ev s ''test'' @ ''&page=0''],
            includes_fields := Some NYT_TEXT_FIELDS, query_url := Some u, query_key := Some k,
            warnings := warnings s @ (if v \<noteq> Some True then [ApiKeyWarning] else [])
                          @ (if 1000 < max_records then [LimitWarning] else [])\<rparr>) of
        (Inl e, s5) \<Rightarrow> (Inl e, s5)
      | (Inr records, s5) \<Rightarrow>
          (case generate_corpus ev (trim_records records max_records) NYT_TEXT_FIELDS of
             Inl e \<Rightarrow> (Inl e, s5)
           | Inr c \<Rightarrow> (Inr c, s5))))"
proof -
  obtain r sa where c: "check_api_key ev s = (r, sa)" by (cases "check_api_key ev s")
  with v have r: "r = Inr v" by simp
  from c check_api_key_state [of ev s] have sa:
    "sa = s\<lparr>requests := requests s @ [base_url @ ''?'' @ encode_base_url ev s ''test'' @ ''&page=0'']\<rparr>"
    by simp
  show ?thesis
    unfolding run_query_def c r sa using ep
    by (cases s) (simp add: Let_def warn_def split: sum.splits)
qed

lemma run_query_raised:
  assumes v: "fst (check_api_key ev s) = Inr v"
    and ep: "\<forall>t. api_key t = api_key s \<longrightarrow>
        set_endpoint_url ev t query year_from year_to (Some NYT_TEXT_FIELDS) =
          (Inr (), t\<lparr>includes_fields := Some NYT_TEXT_FIELDS, query_url := Some u,
                     query_key := Some k\<rparr>)"
    and n: "num_steps max_records = Inl e"
  shows "run_query ev s query year_from year_to max_records =
     (Inl e,
      s\<lparr>requests := requests s @ [base_url @ ''?'' @ encode_base_url ev s ''test'' @ ''&page=0''],
        includes_fields := Some NYT_TEXT_FIELDS, query_url := Some u, query_key := Some k,
        warnings := warnings s @ (if v \<noteq> Some True then [ApiKeyWarning] else [])
                      @ (if 1000 < max_records then [LimitWarning] else [])\<rparr>)"
  unfolding run_query_steps [OF v ep] n by simp

lemma run_query_parts:
  assumes v: "fst (check_api_key ev s) = Inr v"
    and ep: "\<forall>t. api_key t = api_key s \<longrightarrow>
        set_endpoint_url ev t query year_from year_to (Some NYT_TEXT_FIELDS) =
          (Inr (), t\<lparr>includes_fields := Some NYT_TEXT_FIELDS, query_url := Some u,
                     query_key := Some k\<rparr>)"
    and n: "num_steps max_records = Inr n"
    and loop: "fetch_loop ev (py_range n) ([],
          s\<lparr>requests := requests s @ [base_url @ ''?'' @ encode_base_url ev s ''test'' @ ''&page=0''],
            includes_fields := Some NYT_TEXT_FIELDS, query_url := Some u, query_key := Some k,
            warnings := warnings s @ (if v \<noteq> Some True then [ApiKeyWarning] else [])
                          @ (if 1000 < max_records then [LimitWarning] else [])\<rparr>) = (r, s5)"
  shows "snd (run_query ev s query year_from year_to max_records) = s5"
    and "fst (run_query ev s query year_from year_to max_records) =
           (case r of Inl e \<Rightarrow> Inl e
            | Inr records \<Rightarrow> generate_corpus ev (trim_records records max_records) NYT_TEXT_FIELDS)"
  unfolding run_query_steps [OF v ep] n sum.case loop
  by (auto split: sum.splits)

lemma endpoint_for_fields:
  "\<exists>u k. u \<noteq> [] \<and>
     (\<forall>t. api_key t = api_key (s::state) \<longrightarrow>
        set_endpoint_url ev t query year_from year_to (Some NYT_TEXT_FIELDS) =
          (Inr (), t\<lparr>includes_fields := Some NYT_TEXT_FIELDS, query_url := Some u,
                     query_key := Some k\<rparr>))"
  using set_endpoint_url_Some [of s ev query year_from year_to NYT_TEXT_FIELDS]
  by (simp add: NYT_TEXT_FIELDS_def)



section \<open>Paging\<close>

lemma run_query_all_fail:
  assumes v: "fst (check_api_key ev s) = Inr v"
    and p: "cache_path s = Some p" and e: "cache s = Map.empty"
    and n: "num_steps max_records = Inr n"
    and f: "\<forall>m w. length (requests s) < m \<longrightarrow> caught_error (urlopen ev m w)"
  shows "fst (run_query ev s query year_from year_to max_records) =
           Inr \<lparr>documents = [], Y = [], metas = [], class_var_values = list_of_set ev [],
                meta_vars = NYT_TEXT_FIELDS @ [''pub_date'', ''country'']\<rparr>"
    and "\<forall>j. j \<in> set (py_range n) \<longrightarrow>
           PageWarning j \<in> set (warnings (snd (run_query ev s query year_from year_to max_records)))"
proof -
  from endpoint_for_fields [of s ev query year_from year_to] obtain u' k' where
    u': "u' \<noteq> []" and
    ep: "\<forall>t. api_key t = api_key s \<longrightarrow>
        set_endpoint_url ev t query year_from year_to (Some NYT_TEXT_FIELDS) =
          (Inr (), t\<lparr>includes_fields := Some NYT_TEXT_FIELDS, query_url := Some u',
                     query_key := Some k'\<rparr>)"
    by blast
  let ?s4 = "s\<lparr>requests := requests s @ [base_url @ ''?'' @ encode_base_url ev s ''test'' @ ''&page=0''],
            includes_fields := Some NYT_TEXT_FIELDS, query_url := Some u', query_key := Some k',
            warnings := warnings s @ (if v \<noteq> Some True then [ApiKeyWarning] else [])
                          @ (if 1000 < max_records then [LimitWarning] else [])\<rparr>"
  have loop: "fetch_loop ev (py_range n) ([], ?s4) =
      (Inr [], ?s4\<lparr>requests := requests ?s4 @ map (\<lambda>i. u' @ ''&page='' @ str_nat i) (py_range n),
                    warnings := warnings ?s4 @ map PageWarning (py_range n)\<rparr>)"
    using p e f u' by (intro fetch_loop_all_fail [where k = k' and p = p]) auto
  show "fst (run_query ev s query year_from year_to max_records) =
           Inr \<lparr>documents = [], Y = [], metas = [], class_var_values = list_of_set ev [],
                meta_vars = NYT_TEXT_FIELDS @ [''pub_date'', ''country'']\<rparr>"
    unfolding run_query_parts(2) [OF v ep n loop]
    by (simp add: trim_records_empty generate_corpus_empty)
  show "\<forall>j. j \<in> set (py_range n) \<longrightarrow>
           PageWarning j \<in> set (warnings (snd (run_query ev s query year_from year_to max_records)))"
    unfolding run_query_parts(1) [OF v ep n loop] by simp
qed


lemma failing_probe: "fst (check_api_key failing_env demo_state) = Inr (Some True)"
  by (simp add: check_api_key_def demo_env_def failing_env_def demo_state_def)




lemma demo_probe_request:
  "encode_base_url demo_env demo_state ''test'' = ''q=test&fq=The+New+York+Times&api-key=k''"
  "encode_base_url failing_env demo_state ''test'' = ''q=test&fq=The+New+York+Times&api-key=k''"
  by code_simp+

lemma num_steps_25: "num_steps 25 = Inr 3"
  by code_simp






section \<open>Year bounds\<close>

lemma year_given_invalid: "\<not> isdigit y \<Longrightarrow> \<not> year_given (Some y)"
  by (simp add: year_given_def)

lemma year_given_None: "\<not> year_given None"
  by (simp add: year_given_def)

lemma set_endpoint_url_year_from:
  "\<not> year_given year_from \<Longrightarrow>
   set_endpoint_url ev s query year_from year_to tf = set_endpoint_url ev s query None year_to tf"
  by (simp add: set_endpoint_url_def year_given_None date_to_str_eq Let_def)

lemma set_endpoint_url_year_to:
  "\<not> year_given year_to \<Longrightarrow>
   set_endpoint_url ev s query year_from year_to tf = set_endpoint_url ev s query year_from None tf"
  by (simp add: set_endpoint_url_def year_given_None date_to_str_eq Let_def)

lemma set_endpoint_url_warnings:
  "warnings (snd (set_endpoint_url ev s query year_from year_to tf)) = warnings s"
  by (simp add: set_endpoint_url_def date_to_str_eq Let_def split: option.splits)

text \<open>
  Claim C6, as amended. A year that \<^verbatim>\<open>isdigit()\<close> rejects (it is empty or has a character
  that is no digit of Unicode) is ignored: the endpoint and the cache key are those of the
  query without that bound, the endpoint has no \<^verbatim>\<open>begin_date\<close> or \<^verbatim>\<open>end_date\<close>, and the
  whole run is the run without the bound. \<^verbatim>\<open>_set_endpoint_url\<close> emits no warning at all.
\<close>

theorem invalid_year_ignored:
  assumes "\<not> isdigit y"
  shows "set_endpoint_url ev s query (Some y) year_to tf = set_endpoint_url ev s query None year_to tf \<and>
         set_endpoint_url ev s query year_from (Some y) tf = set_endpoint_url ev s query year_from None tf \<and>
         query_url (snd (set_endpoint_url ev s query (Some y) (Some y) (Some fl))) =
           Some (base_url @ ''?'' @ encode_base_url ev s query
                  @ (if fl = [] then [] else ''&fl='' @ join '','' fl)
                  @ '',pub_date,section_name''
                  @ (if ''keywords'' \<in> set fl then [] else '',keywords'')) \<and>
         warnings (snd (set_endpoint_url ev s query (Some y) year_to tf)) = warnings s \<and>
         warnings (snd (set_endpoint_url ev s query year_from (Some y) tf)) = warnings s \<and>
         run_query ev s query (Some y) year_to max_records = run_query ev s query None year_to max_records \<and>
         run_query ev s query year_from (Some y) max_records = run_query ev s query year_from None max_records"
proof -
  note n = year_given_invalid [OF assms]
  have "query_url (snd (set_endpoint_url ev s query (Some y) (Some y) (Some fl))) =
           Some (base_url @ ''?'' @ encode_base_url ev s query
                  @ (if fl = [] then [] else ''&fl='' @ join '','' fl)
                  @ '',pub_date,section_name''
                  @ (if ''keywords'' \<in> set fl then [] else '',keywords''))"
    using n by (simp add: set_endpoint_url_def date_to_str_eq Let_def)
  moreover have "run_query ev s query (Some y) year_to max_records =
      run_query ev s query None year_to max_records"
    unfolding run_query_def set_endpoint_url_year_from [OF n] by (rule refl)
  moreover have "run_query ev s query year_from (Some y) max_records =
      run_query ev s query year_from None max_records"
    unfolding run_query_def set_endpoint_url_year_to [OF n] by (rule refl)
  ultimately show ?thesis
    by (simp add: set_endpoint_url_year_from [OF n] set_endpoint_url_year_to [OF n]
        set_endpoint_url_warnings)
qed

text \<open>The year \<^verbatim>\<open>20x0\<close> leaves the endpoint and the run as they are without it.\<close>

theorem invalid_year_ignored_witness:
  "query_url (snd (set_endpoint_url demo_env demo_state ''obama'' (Some ''20x0'') (Some ''20x0'')
      (Some NYT_TEXT_FIELDS))) =
     Some (base_url @ ''?q=obama&fq=The+New+York+Times&api-key=k'' @
           ''&fl=headline,lead_paragraph,snippet,abstract,keywords,pub_date,section_name'') \<and>
   run_query demo_env demo_state ''obama'' (Some ''20x0'') None 10 =
     run_query demo_env demo_state ''obama'' None None 10"
proof -
  have d: "\<not> isdigit ''20x0''" by (simp add: isdigit_def is_digit_def)
  from invalid_year_ignored [OF d, of demo_env demo_state "''obama''" None _ None NYT_TEXT_FIELDS 10]
  show ?thesis
    by (simp add: NYT_TEXT_FIELDS_def encode_base_url_def demo_env_def demo_state_def
        demo_urlencode_def plus_quote_def)
qed

text \<open>
  Claim C6 as stated fails: a run with the start year \<^verbatim>\<open>20x0\<close>, against a service that
  answers, ends with no warning emitted.
\<close>

theorem invalid_year_no_warning:
  "\<not> isdigit ''20x0'' \<and>
   warnings (snd (run_query demo_env demo_state ''obama'' (Some ''20x0'') None 10)) = []"
  by code_simp

section \<open>Failures\<close>

text \<open>
  Claim C3, at its failing input. Without a network the probe of \<^verbatim>\<open>check_api_key\<close> ends in
  a URLError, which line 128 does not catch (line 253 does, for the pages): \<^verbatim>\<open>run_query\<close>
  raises it.
\<close>

theorem probe_url_error_raises:
  "fst (run_query offline_env demo_state ''obama'' None None 10) = Inl URLError"
  by (simp add: run_query_def check_api_key_def offline_env_def)

text \<open>
  Claim C7, as amended. A page that is not in the cache and whose request ends in an
  HTTPError or a URLError, the two exceptions that line 253 catches, leaves the records as
  they were, adds the request and the page warning to the state, and the loop goes on with
  the remaining pages. Any other exception of the request leaves the loop and the run, with
  no warning. When the cache is empty, line 158 does not raise and every request after the
  probe ends in an HTTPError or a URLError, \<^verbatim>\<open>run_query\<close> returns the table of no records
  and has warned about every page of its range.
\<close>

theorem caught_error_page_skipped:
  "(query_url s = Some u \<and> u \<noteq> [] \<and> query_key s = Some k \<and> cache_path s = Some p \<and>
    cache s (k @ ''_'' @ str_nat i) = None \<and>
    caught_error (urlopen ev (length (requests s)) (u @ ''&page='' @ str_nat i)) \<longrightarrow>
      fetch_page ev i (records, s) =
        (Inr records, s\<lparr>requests := requests s @ [u @ ''&page='' @ str_nat i],
                        warnings := warnings s @ [PageWarning i]\<rparr>) \<and>
      fetch_loop ev (i # pages) (records, s) =
        fetch_loop ev pages (records, s\<lparr>requests := requests s @ [u @ ''&page='' @ str_nat i],
                                        warnings := warnings s @ [PageWarning i]\<rparr>)) \<and>
   (query_url s = Some u \<and> u \<noteq> [] \<and> query_key s = Some k \<and> cache_path s = Some p \<and>
    cache s (k @ ''_'' @ str_nat i) = None \<and>
    urlopen ev (length (requests s)) (u @ ''&page='' @ str_nat i) = NetOther \<longrightarrow>
      fetch_loop ev (i # pages) (records, s) =
        (Inl OtherError, s\<lparr>requests := requests s @ [u @ ''&page='' @ str_nat i]\<rparr>)) \<and>
   (fst (check_api_key ev s) = Inr v \<and> cache_path s = Some p \<and> cache s = Map.empty \<and>
    num_steps max_records = Inr n \<and>
    (\<forall>m w. length (requests s) < m \<longrightarrow> caught_error (urlopen ev m w)) \<longrightarrow>
      fst (run_query ev s query year_from year_to max_records) =
        Inr \<lparr>documents = [], Y = [], metas = [], class_var_values = list_of_set ev [],
             meta_vars = NYT_TEXT_FIELDS @ [''pub_date'', ''country'']\<rparr> \<and>
      (\<forall>j. j \<in> set (py_range n) \<longrightarrow>
           PageWarning j \<in> set (warnings (snd (run_query ev s query year_from year_to max_records)))))"
proof (intro conjI impI)
  assume a: "query_url s = Some u \<and> u \<noteq> [] \<and> query_key s = Some k \<and> cache_path s = Some p \<and>
    cache s (k @ ''_'' @ str_nat i) = None \<and>
    caught_error (urlopen ev (length (requests s)) (u @ ''&page='' @ str_nat i))"
  then have a1: "query_url s = Some u" and a2: "u \<noteq> []" and a3: "query_key s = Some k"
    and a4: "cache_path s = Some p" and a5: "cache s (k @ ''_'' @ str_nat i) = None"
    and a6: "caught_error (urlopen ev (length (requests s)) (u @ ''&page='' @ str_nat i))"
    by blast+
  have step: "fetch_page ev i (records, s) =
        (Inr records, s\<lparr>requests := requests s @ [u @ ''&page='' @ str_nat i],
                        warnings := warnings s @ [PageWarning i]\<rparr>)"
    by (rule fetch_page_caught [OF a1 a2 a3 a4 a5 a6])
  then show "fetch_page ev i (records, s) =
        (Inr records, s\<lparr>requests := requests s @ [u @ ''&page='' @ str_nat i],
                        warnings := warnings s @ [PageWarning i]\<rparr>)" .
  from step show "fetch_loop ev (i # pages) (records, s) =
        fetch_loop ev pages (records, s\<lparr>requests := requests s @ [u @ ''&page='' @ str_nat i],
                                        warnings := warnings s @ [PageWarning i]\<rparr>)"
    by simp
next
  assume a: "query_url s = Some u \<and> u \<noteq> [] \<and> query_key s = Some k \<and> cache_path s = Some p \<and>
    cache s (k @ ''_'' @ str_nat i) = None \<and>
    urlopen ev (length (requests s)) (u @ ''&page='' @ str_nat i) = NetOther"
  then have a1: "query_url s = Some u" and a2: "u \<noteq> []" and a3: "query_key s = Some k"
    and a4: "cache_path s = Some p" and a5: "cache s (k @ ''_'' @ str_nat i) = None"
    and a6: "urlopen ev (length (requests s)) (u @ ''&page='' @ str_nat i) = NetOther"
    by blast+
  from fetch_page_other [OF a1 a2 a3 a4 a5 a6]
  show "fetch_loop ev (i # pages) (records, s) =
        (Inl OtherError, s\<lparr>requests := requests s @ [u @ ''&page='' @ str_nat i]\<rparr>)"
    by simp
next
  assume b: "fst (check_api_key ev s) = Inr v \<and> cache_path s = Some p \<and> cache s = Map.empty \<and>
    num_steps max_records = Inr n \<and>
    (\<forall>m w. length (requests s) < m \<longrightarrow> caught_error (urlopen ev m w))"
  then have b1: "fst (check_api_key ev s) = Inr v" and b2: "cache_path s = Some p"
    and b3: "cache s = Map.empty" and b4: "num_steps max_records = Inr n"
    and b5: "\<forall>m w. length (requests s) < m \<longrightarrow> caught_error (urlopen ev m w)"
    by blast+
  show "fst (run_query ev s query year_from year_to max_records) =
        Inr \<lparr>documents = [], Y = [], metas = [], class_var_values = list_of_set ev [],
             meta_vars = NYT_TEXT_FIELDS @ [''pub_date'', ''country'']\<rparr>"
    by (rule run_query_all_fail(1) [OF b1 b2 b3 b4 b5])
  show "\<forall>j. j \<in> set (py_range n) \<longrightarrow>
           PageWarning j \<in> set (warnings (snd (run_query ev s query year_from year_to max_records)))"
    by (rule run_query_all_fail(2) [OF b1 b2 b3 b4 b5])
qed

lemma str_nat_3: "str_nat 3 = ''3''"
  by code_simp

lemma empty_corpus_eq:
  "\<lparr>documents = [], Y = [], metas = [], class_var_values = list_of_set failing_env [],
     meta_vars = NYT_TEXT_FIELDS @ [''pub_date'', ''country'']\<rparr> = empty_corpus"
  by (simp add: empty_corpus_def failing_env_def demo_env_def NYT_TEXT_FIELDS_def)

text \<open>
  Page 3 of a prepared query, once with a URLError and once with a reset connection, and a
  run for 25 records against the service whose pages all end in a URLError.
\<close>

theorem caught_error_page_skipped_witness:
  "fetch_page failing_env 3 ([JInt 7], ready_state\<lparr>requests := [''probe'']\<rparr>) =
     (Inr [JInt 7], ready_state\<lparr>requests := [''probe'', base_url @ ''?q=obama&page=3''],
                                warnings := [PageWarning 3]\<rparr>) \<and>
   fetch_loop reset_env [3, 4] ([JInt 7], ready_state\<lparr>requests := [''probe'']\<rparr>) =
     (Inl OtherError, ready_state\<lparr>requests := [''probe'', base_url @ ''?q=obama&page=3'']\<rparr>) \<and>
   fst (run_query failing_env demo_state ''obama'' None None 25) = Inr empty_corpus \<and>
   PageWarning 2 \<in> set (warnings (snd (run_query failing_env demo_state ''obama'' None None 25)))"
proof -
  let ?s = "ready_state\<lparr>requests := [''probe'']\<rparr>"
  have h1: "query_url ?s = Some (base_url @ ''?q=obama'') \<and> base_url @ ''?q=obama'' \<noteq> [] \<and>
    query_key ?s = Some ''18510101_20261104_obama'' \<and> cache_path ?s = Some ''nytcache/query_cache'' \<and>
    cache ?s (''18510101_20261104_obama'' @ ''_'' @ str_nat 3) = None \<and>
    caught_error (urlopen failing_env (length (requests ?s))
      ((base_url @ ''?q=obama'') @ ''&page='' @ str_nat 3))"
    by (simp add: ready_state_def demo_state_def failing_env_def caught_error_def)
  have h1': "query_url ?s = Some (base_url @ ''?q=obama'') \<and> base_url @ ''?q=obama'' \<noteq> [] \<and>
    query_key ?s = Some ''18510101_20261104_obama'' \<and> cache_path ?s = Some ''nytcache/query_cache'' \<and>
    cache ?s (''18510101_20261104_obama'' @ ''_'' @ str_nat 3) = None \<and>
    urlopen reset_env (length (requests ?s))
      ((base_url @ ''?q=obama'') @ ''&page='' @ str_nat 3) = NetOther"
    by (simp add: ready_state_def demo_state_def reset_env_def)
  have h2: "fst (check_api_key failing_env demo_state) = Inr (Some True) \<and>
    cache_path demo_state = Some ''nytcache/query_cache'' \<and> cache demo_state = Map.empty \<and>
    num_steps 25 = Inr 3 \<and>
    (\<forall>m w. length (requests demo_state) < m \<longrightarrow> caught_error (urlopen failing_env m w))"
    using failing_probe num_steps_25
    by (simp add: demo_state_def failing_env_def caught_error_def)
  have p: "2 \<in> set (py_range 3)" by (simp add: py_range_def)
  note t = caught_error_page_skipped [of ?s "base_url @ ''?q=obama''" "''18510101_20261104_obama''"
      "''nytcache/query_cache''" 3 failing_env "[JInt 7]" "[]" "Some True" 25 3
      "''obama''" None None]
  note r = caught_error_page_skipped [of ?s "base_url @ ''?q=obama''" "''18510101_20261104_obama''"
      "''nytcache/query_cache''" 3 reset_env "[JInt 7]" "[4]" "Some True" 25 3
      "''obama''" None None]
  note t' = caught_error_page_skipped [of demo_state "base_url @ ''?q=obama''"
      "''18510101_20261104_obama''" "''nytcache/query_cache''" 3 failing_env "[JInt 7]" "[]"
      "Some True" 25 3 "''obama''" None None]
  from t h1 have a: "fetch_page failing_env 3 ([JInt 7], ?s) =
     (Inr [JInt 7], ?s\<lparr>requests := requests ?s @ [(base_url @ ''?q=obama'') @ ''&page='' @ str_nat 3],
                       warnings := warnings ?s @ [PageWarning 3]\<rparr>)"
    by blast
  from r h1' have c: "fetch_loop reset_env [3, 4] ([JInt 7], ?s) =
     (Inl OtherError, ?s\<lparr>requests := requests ?s @ [(base_url @ ''?q=obama'') @ ''&page='' @ str_nat 3]\<rparr>)"
    by blast
  from t' h2 p have b: "fst (run_query failing_env demo_state ''obama'' None None 25) =
      Inr \<lparr>documents = [], Y = [], metas = [], class_var_values = list_of_set failing_env [],
           meta_vars = NYT_TEXT_FIELDS @ [''pub_date'', ''country'']\<rparr> \<and>
   PageWarning 2 \<in> set (warnings (snd (run_query failing_env demo_state ''obama'' None None 25)))"
    by blast
  from a b c show ?thesis
    by (simp add: ready_state_def demo_state_def str_nat_3 empty_corpus_eq)
qed

text \<open>
  Claim C7 as stated fails: when the connection of the first page request is reset, an
  exception that is neither an HTTPError nor a URLError, \<^verbatim>\<open>run_query\<close> raises it; nothing
  is caught and no warning is emitted.
\<close>

theorem connection_reset_raises:
  "urlopen reset_env 1 (obama_url @ ''&page=0'') = NetOther \<and>
   fst (run_query reset_env demo_state ''obama'' None None 10) = Inl OtherError \<and>
   requests (snd (run_query reset_env demo_state ''obama'' None None 10)) =
     [probe_request, obama_url @ ''&page=0''] \<and>
   warnings (snd (run_query reset_env demo_state ''obama'' None None 10)) = []"
  by code_simp

section \<open>Running a query twice\<close>

text \<open>
  Claim C4, as amended. When the first run returns a table and every request after its
  probe is answered, the second run with the same parameters in the same process on the
  same day returns the same table, leaves the cache as it is, and sends one request only:
  the probe of \<^verbatim>\<open>check_api_key\<close>. No page is requested again. A page that is not in the
  cache is requested when the loop comes to it, and when that request ends in an
  HTTPError or a URLError the cache stays as it was, so the page is still not in it.
\<close>

theorem second_run_served_from_cache:
  assumes first: "fst (run_query ev s query year_from year_to max_records) = Inr c"
    and net: "\<forall>m w. length (requests s) < m \<longrightarrow> (\<exists>code body. urlopen ev m w = NetOk code body)"
  shows "fst (run_query ev (snd (run_query ev s query year_from year_to max_records))
                query year_from year_to max_records) = Inr c \<and>
         cache (snd (run_query ev (snd (run_query ev s query year_from year_to max_records))
                query year_from year_to max_records)) =
           cache (snd (run_query ev s query year_from year_to max_records)) \<and>
         requests (snd (run_query ev (snd (run_query ev s query year_from year_to max_records))
                query year_from year_to max_records)) =
           requests (snd (run_query ev s query year_from year_to max_records))
             @ [base_url @ ''?'' @ encode_base_url ev s ''test'' @ ''&page=0''] \<and>
         (\<forall>ev' t u k p i records.
            query_url t = Some u \<and> u \<noteq> [] \<and> query_key t = Some k \<and> cache_path t = Some p \<and>
            cache t (k @ ''_'' @ str_nat i) = None \<longrightarrow>
              requests (snd (fetch_page ev' i (records, t))) =
                requests t @ [u @ ''&page='' @ str_nat i] \<and>
              (caught_error (urlopen ev' (length (requests t)) (u @ ''&page='' @ str_nat i)) \<longrightarrow>
                 cache (snd (fetch_page ev' i (records, t))) = cache t))"
proof -
  let ?probe = "base_url @ ''?'' @ encode_base_url ev s ''test'' @ ''&page=0''"
  from run_query_probe [OF first] obtain v where v: "fst (check_api_key ev s) = Inr v" by blast
  from endpoint_for_fields [of s ev query year_from year_to] obtain u k where
    u: "u \<noteq> []" and
    ep: "\<forall>t. api_key t = api_key s \<longrightarrow>
        set_endpoint_url ev t query year_from year_to (Some NYT_TEXT_FIELDS) =
          (Inr (), t\<lparr>includes_fields := Some NYT_TEXT_FIELDS, query_url := Some u,
                     query_key := Some k\<rparr>)"
    by blast
  let ?s4 = "s\<lparr>requests := requests s @ [?probe],
            includes_fields := Some NYT_TEXT_FIELDS, query_url := Some u, query_key := Some k,
            warnings := warnings s @ (if v \<noteq> Some True then [ApiKeyWarning] else [])
                          @ (if 1000 < max_records then [LimitWarning] else [])\<rparr>"
  obtain n where n: "num_steps max_records = Inr n"
  proof (cases "num_steps max_records")
    case (Inl e)
    from first show ?thesis unfolding run_query_raised [OF v ep Inl] by simp
  next
    case (Inr n)
    then show ?thesis by (rule that)
  qed
  obtain r s1 where loop: "fetch_loop ev (py_range n) ([], ?s4) = (r, s1)"
    by (cases "fetch_loop ev (py_range n) ([], ?s4)")
  note run1 = run_query_parts [OF v ep n loop]
  from first run1(2) obtain records where r: "r = Inr records" and
    gc: "generate_corpus ev (trim_records records max_records) NYT_TEXT_FIELDS = Inr c"
    by (cases r) auto
  note fr = fetch_loop_frame [OF loop]
  from fr have key: "api_key s1 = api_key s" by simp
  from fr obtain rq where rq: "requests s1 = requests s @ [?probe] @ rq" by auto
  then have "length (requests s) < length (requests s1)" by simp
  with net obtain code body where
    "urlopen ev (length (requests s1)) (base_url @ ''?'' @ encode_base_url ev s1 ''test'' @ ''&page=0'')
       = NetOk code body"
    by blast
  from check_api_key_ok [OF this] obtain v' where v': "fst (check_api_key ev s1) = Inr v'"
    by blast
  from ep key have ep': "\<forall>t. api_key t = api_key s1 \<longrightarrow>
        set_endpoint_url ev t query year_from year_to (Some NYT_TEXT_FIELDS) =
          (Inr (), t\<lparr>includes_fields := Some NYT_TEXT_FIELDS, query_url := Some u,
                     query_key := Some k\<rparr>)"
    by simp
  let ?t4 = "s1\<lparr>requests := requests s1 @ [base_url @ ''?'' @ encode_base_url ev s1 ''test'' @ ''&page=0''],
            includes_fields := Some NYT_TEXT_FIELDS, query_url := Some u, query_key := Some k,
            warnings := warnings s1 @ (if v' \<noteq> Some True then [ApiKeyWarning] else [])
                          @ (if 1000 < max_records then [LimitWarning] else [])\<rparr>"
  have net4: "\<forall>m w. length (requests ?s4) \<le> m \<longrightarrow> (\<exists>code body. urlopen ev m w = NetOk code body)"
    using net by simp
  have "\<exists>ws. fetch_loop ev (py_range n) ([], ?t4) =
      (Inr records, ?t4\<lparr>warnings := warnings ?t4 @ ws\<rparr>)"
    using fr by (intro fetch_loop_replay [OF loop [unfolded r] _ u _ _ _ _ _ net4]) simp_all
  then obtain ws where loop2: "fetch_loop ev (py_range n) ([], ?t4) =
      (Inr records, ?t4\<lparr>warnings := warnings ?t4 @ ws\<rparr>)"
    by blast
  note run2 = run_query_parts [OF v' ep' n loop2]
  have s1: "snd (run_query ev s query year_from year_to max_records) = s1"
    by (rule run1(1))
  from key have probe: "encode_base_url ev s1 ''test'' = encode_base_url ev s ''test''"
    by (rule encode_base_url_api_key)
  have runs: "fst (run_query ev (snd (run_query ev s query year_from year_to max_records))
                query year_from year_to max_records) = Inr c \<and>
         cache (snd (run_query ev (snd (run_query ev s query year_from year_to max_records))
                query year_from year_to max_records)) =
           cache (snd (run_query ev s query year_from year_to max_records)) \<and>
         requests (snd (run_query ev (snd (run_query ev s query year_from year_to max_records))
                query year_from year_to max_records)) =
           requests (snd (run_query ev s query year_from year_to max_records))
             @ [base_url @ ''?'' @ encode_base_url ev s ''test'' @ ''&page=0'']"
    unfolding s1 run2 using gc by (simp add: probe)
  have page: "requests (snd (fetch_page ev' i (records, t))) =
                requests t @ [u @ ''&page='' @ str_nat i] \<and>
              (caught_error (urlopen ev' (length (requests t)) (u @ ''&page='' @ str_nat i)) \<longrightarrow>
                 cache (snd (fetch_page ev' i (records, t))) = cache t)"
    if "query_url t = Some u \<and> u \<noteq> [] \<and> query_key t = Some k \<and> cache_path t = Some p \<and>
        cache t (k @ ''_'' @ str_nat i) = None" for ev' t u k p i records
  proof -
    from that have a1: "query_url t = Some u" and a2: "u \<noteq> []" and a3: "query_key t = Some k"
      and a4: "cache_path t = Some p" and a5: "cache t (k @ ''_'' @ str_nat i) = None"
      by blast+
    have "cache (snd (fetch_page ev' i (records, t))) = cache t"
      if "caught_error (urlopen ev' (length (requests t)) (u @ ''&page='' @ str_nat i))"
      unfolding fetch_page_caught [OF a1 a2 a3 a4 a5 that] by simp
    with fetch_page_miss_requests [OF a1 a2 a3 a4 a5] show ?thesis by blast
  qed
  from runs page show ?thesis by blast
qed

lemma demo_first_run:
  "fst (run_query demo_env demo_state ''obama'' None None 10) = Inr demo_corpus"
  by code_simp

text \<open>
  Two runs for ten records against the service that answers, and page 0 of a prepared
  query whose request ends in an HTTPError.
\<close>

theorem second_run_served_from_cache_witness:
  "fst (run_query demo_env (snd (run_query demo_env demo_state ''obama'' None None 10))
          ''obama'' None None 10) = Inr demo_corpus \<and>
   cache (snd (run_query demo_env (snd (run_query demo_env demo_state ''obama'' None None 10))
          ''obama'' None None 10)) =
     cache (snd (run_query demo_env demo_state ''obama'' None None 10)) \<and>
   requests (snd (run_query demo_env (snd (run_query demo_env demo_state ''obama'' None None 10))
          ''obama'' None None 10)) =
     requests (snd (run_query demo_env demo_state ''obama'' None None 10)) @ [probe_request] \<and>
   requests (snd (fetch_page flaky_env 0 ([], ready_state\<lparr>requests := [''probe'']\<rparr>))) =
     [''probe'', base_url @ ''?q=obama&page=0''] \<and>
   cache (snd (fetch_page flaky_env 0 ([], ready_state\<lparr>requests := [''probe'']\<rparr>))) =
     cache (ready_state\<lparr>requests := [''probe'']\<rparr>)"
proof -
  let ?t = "ready_state\<lparr>requests := [''probe'']\<rparr>"
  have net: "\<forall>m w. length (requests demo_state) < m \<longrightarrow>
      (\<exists>code body. urlopen demo_env m w = NetOk code body)"
    by (simp add: demo_env_def)
  note t = second_run_served_from_cache [OF demo_first_run net]
  have h: "query_url ?t = Some (base_url @ ''?q=obama'') \<and> base_url @ ''?q=obama'' \<noteq> [] \<and>
    query_key ?t = Some ''18510101_20261104_obama'' \<and> cache_path ?t = Some ''nytcache/query_cache'' \<and>
    cache ?t (''18510101_20261104_obama'' @ ''_'' @ str_nat 0) = None"
    by (simp add: ready_state_def demo_state_def)
  have e: "caught_error (urlopen flaky_env (length (requests ?t))
      ((base_url @ ''?q=obama'') @ ''&page='' @ str_nat 0))"
    by (simp add: flaky_env_def caught_error_def)
  from t h e have p: "requests (snd (fetch_page flaky_env 0 ([], ?t))) =
      requests ?t @ [(base_url @ ''?q=obama'') @ ''&page='' @ str_nat 0] \<and>
    cache (snd (fetch_page flaky_env 0 ([], ?t))) = cache ?t"
    by blast
  have z: "str_nat 0 = ''0''" by code_simp
  from t p show ?thesis
    by (simp add: demo_probe_request probe_request_def z)
qed

text \<open>
  Claim C4 as stated fails: when the only page of the first run ends in an HTTPError,
  nothing is cached for it. The second run requests the page again and returns another
  table, and the two runs have sent four requests for one page: two probes and two fetches.
\<close>

theorem failed_page_fetched_again:
  "fst (run_query flaky_env demo_state ''obama'' None None 10) = Inr empty_corpus \<and>
   fst (run_query flaky_env (snd (run_query flaky_env demo_state ''obama'' None None 10))
          ''obama'' None None 10) = Inr demo_corpus \<and>
   empty_corpus \<noteq> demo_corpus \<and>
   num_steps 10 = Inr 1 \<and> py_range 1 = [0] \<and>
   requests (snd (run_query flaky_env (snd (run_query flaky_env demo_state ''obama'' None None 10))
          ''obama'' None None 10)) =
     [probe_request, obama_url @ ''&page=0'', probe_request, obama_url @ ''&page=0'']"
  by code_simp

section \<open>The date in the cache key\<close>










end
